theory Spec2Isabelle
  imports Complex_Main "HOL-Library.Word"
begin

section \<open>JavaScript strings and values\<close>

text \<open>
  A JavaScript string is a sequence of 16-bit code units: \<open>startsWith\<close>, \<open>replace\<close>,
  \<open>length\<close> and \<open>JSON.parse\<close> all read code units. \<open>str\<close> writes an ASCII literal
  as such a sequence.
\<close>

type_synonym js_string = "16 word list"

definition str :: "string \<Rightarrow> js_string" where
  "str s = map of_char s"

text \<open>
  The values \<open>JSON.parse\<close> can return, and \<open>undefined\<close>, which reading a missing
  property yields. A number is kept as the exact rational value of its literal; the
  runtime holds the IEEE double nearest to it. An object is its members in source order.
\<close>

datatype js_value =
    JUndefined
  | JNull
  | JBool bool
  | JNum rat
  | JStr js_string
  | JArr "js_value list"
  | JObj "(js_string \<times> js_value) list"

datatype js_error = SyntaxError | TypeError

text \<open>\<open>s.startsWith(p)\<close>.\<close>

definition startsWith :: "js_string \<Rightarrow> js_string \<Rightarrow> bool" where
  "startsWith s p = (take (length p) s = p)"

text \<open>
  \<open>s.replace(pat, rep)\<close> with a string pattern: only the first occurrence of \<open>pat\<close> is
  replaced, and a string without \<open>pat\<close> is returned as it is. The \<open>$\<close> patterns of the
  replacement string are not modelled: the one call in the source passes the empty string.
\<close>

fun replace :: "js_string \<Rightarrow> js_string \<Rightarrow> js_string \<Rightarrow> js_string" where
  "replace pat rep [] = (if pat = [] then rep else [])"
| "replace pat rep (c # cs) =
     (if startsWith (c # cs) pat then rep @ drop (length pat) (c # cs)
      else c # replace pat rep cs)"

text \<open>
  Truthiness (\<open>ToBoolean\<close>). A number is falsy when its double is zero: the literal is zero
  or rounds to zero, which rounding to nearest, ties to even, does up to half the least subnormal,
  that is up to \<open>1 / 2 ^ 1075\<close>.
\<close>

fun truthy :: "js_value \<Rightarrow> bool" where
  "truthy JUndefined = False"
| "truthy JNull = False"
| "truthy (JBool b) = b"
| "truthy (JNum q) = (1 / 2 ^ 1075 < \<bar>q\<bar>)"
| "truthy (JStr s) = (s \<noteq> [])"
| "truthy (JArr vs) = True"
| "truthy (JObj kvs) = True"

text \<open>
  The own property \<open>k\<close> of an object built by \<open>JSON.parse\<close>: of two members with one
  name the later one stands.
\<close>

definition own_property :: "(js_string \<times> js_value) list \<Rightarrow> js_string \<Rightarrow> js_value option" where
  "own_property kvs k = map_of (rev kvs) k"

text \<open>
  Reading the property \<open>v.k\<close>, for a name \<open>k\<close> that the built-in prototypes do not define
  (as \<open>userId\<close> and \<open>user_id\<close>): \<open>null\<close> and \<open>undefined\<close> throw a TypeError, an object
  gives its own property or \<open>undefined\<close>, every other value gives \<open>undefined\<close>.
\<close>

definition member :: "(js_string \<times> js_value) list \<Rightarrow> js_string \<Rightarrow> js_value" where
  "member kvs k = (case own_property kvs k of None \<Rightarrow> JUndefined | Some v \<Rightarrow> v)"

fun get :: "js_value \<Rightarrow> js_string \<Rightarrow> js_error + js_value" where
  "get JUndefined k = Inl TypeError"
| "get JNull k = Inl TypeError"
| "get (JObj kvs) k = Inr (member kvs k)"
| "get v k = Inr JUndefined"

section \<open>\<open>JSON.parse\<close>\<close>

text \<open>
  The JSON grammar of ECMA-404, which \<open>JSON.parse\<close> accepts: white space is tab, line
  feed, carriage return and space; a string is quoted, holds no code unit below
  \<open>0x20\<close>, and escapes with a backslash; a number has no leading zero, and digits after
  every point and exponent mark. Each parser returns its result and the rest of the
  input, or \<open>None\<close> where the text is no JSON.
\<close>

definition is_ws :: "16 word \<Rightarrow> bool" where
  "is_ws c = (c = 0x09 \<or> c = 0x0A \<or> c = 0x0D \<or> c = 0x20)"

definition skip_ws :: "js_string \<Rightarrow> js_string" where
  "skip_ws = dropWhile is_ws"

definition is_digit :: "16 word \<Rightarrow> bool" where
  "is_digit c = (0x30 \<le> c \<and> c \<le> 0x39)"

definition hex_digit :: "16 word \<Rightarrow> nat option" where
  "hex_digit c =
     (if 0x30 \<le> c \<and> c \<le> 0x39 then Some (unat c - 0x30)
      else if 0x41 \<le> c \<and> c \<le> 0x46 then Some (unat c - 0x41 + 10)
      else if 0x61 \<le> c \<and> c \<le> 0x66 then Some (unat c - 0x61 + 10)
      else None)"

definition hex4 :: "16 word \<Rightarrow> 16 word \<Rightarrow> 16 word \<Rightarrow> 16 word \<Rightarrow> 16 word option" where
  "hex4 a b c d =
     (case (hex_digit a, hex_digit b, hex_digit c, hex_digit d) of
        (Some x, Some y, Some z, Some w) \<Rightarrow> Some (of_nat (((x * 16 + y) * 16 + z) * 16 + w))
      | _ \<Rightarrow> None)"

definition escape_char :: "16 word \<Rightarrow> 16 word option" where
  "escape_char e =
     (if e = 0x22 then Some 0x22
      else if e = 0x5C then Some 0x5C
      else if e = 0x2F then Some 0x2F
      else if e = 0x62 then Some 0x08
      else if e = 0x66 then Some 0x0C
      else if e = 0x6E then Some 0x0A
      else if e = 0x72 then Some 0x0D
      else if e = 0x74 then Some 0x09
      else None)"

fun string_chars :: "js_string \<Rightarrow> (js_string \<times> js_string) option" where
  "string_chars [] = None"
| "string_chars (c # cs) =
     (if c = 0x22 then Some ([], cs)
      else if c = 0x5C then
        (case cs of
           [] \<Rightarrow> None
         | e # es \<Rightarrow>
             if e = 0x75 then
               (case es of
                  h1 # h2 # h3 # h4 # rest \<Rightarrow>
                    (case hex4 h1 h2 h3 h4 of
                       None \<Rightarrow> None
                     | Some u \<Rightarrow> map_option (\<lambda>(s, r). (u # s, r)) (string_chars rest))
                | _ \<Rightarrow> None)
             else
               (case escape_char e of
                  None \<Rightarrow> None
                | Some x \<Rightarrow> map_option (\<lambda>(s, r). (x # s, r)) (string_chars es)))
      else if c < 0x20 then None
      else map_option (\<lambda>(s, r). (c # s, r)) (string_chars cs))"

definition digits_val :: "js_string \<Rightarrow> nat" where
  "digits_val ds = foldl (\<lambda>n d. 10 * n + (unat d - 0x30)) 0 ds"

definition mk_number :: "bool \<Rightarrow> nat \<Rightarrow> int \<Rightarrow> rat" where
  "mk_number neg m e =
     (let q = (if 0 \<le> e then of_nat m * 10 ^ nat e else of_nat m / 10 ^ nat (- e))
      in if neg then - q else q)"

definition fraction :: "js_string \<Rightarrow> (js_string \<times> js_string) option" where
  "fraction s =
     (case s of
        [] \<Rightarrow> Some ([], s)
      | c # cs \<Rightarrow>
          if c = 0x2E then
            (if takeWhile is_digit cs = [] then None
             else Some (takeWhile is_digit cs, dropWhile is_digit cs))
          else Some ([], s))"

definition exponent_sign :: "js_string \<Rightarrow> int \<times> js_string" where
  "exponent_sign s =
     (case s of
        [] \<Rightarrow> (1, s)
      | d # ds \<Rightarrow> if d = 0x2B then (1, ds) else if d = 0x2D then (- 1, ds) else (1, s))"

definition exponent :: "js_string \<Rightarrow> (int \<times> js_string) option" where
  "exponent s =
     (case s of
        [] \<Rightarrow> Some (0, s)
      | c # cs \<Rightarrow>
          if c = 0x65 \<or> c = 0x45 then
            (case exponent_sign cs of
               (sg, ds) \<Rightarrow>
                 if takeWhile is_digit ds = [] then None
                 else Some (sg * int (digits_val (takeWhile is_digit ds)), dropWhile is_digit ds))
          else Some (0, s))"

definition minus_sign :: "js_string \<Rightarrow> bool \<times> js_string" where
  "minus_sign s =
     (case s of [] \<Rightarrow> (False, s) | c # cs \<Rightarrow> if c = 0x2D then (True, cs) else (False, s))"

definition int_part :: "js_string \<Rightarrow> js_string" where
  "int_part s = (case s of [] \<Rightarrow> [] | c # cs \<Rightarrow> if c = 0x30 then [c] else takeWhile is_digit s)"

definition number :: "js_string \<Rightarrow> (rat \<times> js_string) option" where
  "number inp =
     (case minus_sign inp of
        (neg, s0) \<Rightarrow>
          if int_part s0 = [] then None
          else
            (case fraction (drop (length (int_part s0)) s0) of
               None \<Rightarrow> None
             | Some (fp, s2) \<Rightarrow>
                 (case exponent s2 of
                    None \<Rightarrow> None
                  | Some (ex, s3) \<Rightarrow>
                      Some (mk_number neg (digits_val (int_part s0 @ fp)) (ex - int (length fp)), s3))))"

text \<open>Both facts are what the termination of the value parser rests on.\<close>

lemma skip_ws_length: "length (skip_ws s) \<le> length s"
  by (simp add: skip_ws_def length_dropWhile_le)

lemma string_chars_length: "string_chars s = Some (k, r) \<Longrightarrow> length r < length s"
proof (induction s arbitrary: k r rule: string_chars.induct)
  case 1
  then show ?case by simp
next
  case (2 c cs)
  then show ?case
    by (fastforce split: if_splits list.splits option.splits)
qed

text \<open>
  Values, the elements of an array after \<open>[\<close> and the members of an object after \<open>{\<close>.
  The two length tests before the recursive calls make the recursion well-founded by
  themselves; they never fail (\<open>json_value_shorter\<close> below).
\<close>

function (sequential) json_value :: "js_string \<Rightarrow> (js_value \<times> js_string) option"
  and elements :: "js_string \<Rightarrow> (js_value list \<times> js_string) option"
  and members :: "js_string \<Rightarrow> ((js_string \<times> js_value) list \<times> js_string) option"
where
  "json_value inp =
     (case skip_ws inp of
        [] \<Rightarrow> None
      | c # cs \<Rightarrow>
          if c = 0x7B then
            (case skip_ws cs of
               [] \<Rightarrow> None
             | d # ds \<Rightarrow>
                 if d = 0x7D then Some (JObj [], ds)
                 else map_option (\<lambda>(kvs, r). (JObj kvs, r)) (members cs))
          else if c = 0x5B then
            (case skip_ws cs of
               [] \<Rightarrow> None
             | d # ds \<Rightarrow>
                 if d = 0x5D then Some (JArr [], ds)
                 else map_option (\<lambda>(vs, r). (JArr vs, r)) (elements cs))
          else if c = 0x22 then map_option (\<lambda>(s, r). (JStr s, r)) (string_chars cs)
          else if startsWith (c # cs) (str ''true'') then Some (JBool True, drop 4 (c # cs))
          else if startsWith (c # cs) (str ''false'') then Some (JBool False, drop 5 (c # cs))
          else if startsWith (c # cs) (str ''null'') then Some (JNull, drop 4 (c # cs))
          else if c = 0x2D \<or> is_digit c then map_option (\<lambda>(q, r). (JNum q, r)) (number (c # cs))
          else None)"
| "elements inp =
     (case json_value inp of
        None \<Rightarrow> None
      | Some (v, rest) \<Rightarrow>
          (case skip_ws rest of
             [] \<Rightarrow> None
           | c # cs \<Rightarrow>
               if c = 0x2C then
                 (if length cs < length inp
                  then map_option (\<lambda>(vs, r). (v # vs, r)) (elements cs)
                  else None)
               else if c = 0x5D then Some ([v], cs)
               else None))"
| "members inp =
     (case skip_ws inp of
        [] \<Rightarrow> None
      | c # cs \<Rightarrow>
          if c = 0x22 then
            (case string_chars cs of
               None \<Rightarrow> None
             | Some (k, rest) \<Rightarrow>
                 (case skip_ws rest of
                    [] \<Rightarrow> None
                  | d # ds \<Rightarrow>
                      if d = 0x3A then
                        (case json_value ds of
                           None \<Rightarrow> None
                         | Some (v, rest') \<Rightarrow>
                             (case skip_ws rest' of
                                [] \<Rightarrow> None
                              | e # es \<Rightarrow>
                                  if e = 0x2C then
                                    (if length es < length inp
                                     then map_option (\<lambda>(kvs, r). ((k, v) # kvs, r)) (members es)
                                     else None)
                                  else if e = 0x7D then Some ([(k, v)], es)
                                  else None))
                      else None))
          else None)"
  by pat_completeness auto
termination
proof (relation "measures [\<lambda>x. case x of Inl i \<Rightarrow> length i | Inr (Inl i) \<Rightarrow> length i | Inr (Inr i) \<Rightarrow> length i,
                           \<lambda>x. case x of Inl i \<Rightarrow> 0 | Inr _ \<Rightarrow> 1]", goal_cases)
  case 1
  then show ?case by simp
next
  case (2 inp c cs d ds)
  have "length cs < length (skip_ws inp)" using 2 by simp
  then show ?case using skip_ws_length [of inp] by simp
next
  case (3 inp c cs d ds)
  have "length cs < length (skip_ws inp)" using 3 by simp
  then show ?case using skip_ws_length [of inp] by simp
next
  case (4 inp)
  then show ?case by simp
next
  case (5 inp v rest c cs)
  then show ?case by simp
next
  case (6 inp c cs kr k rest d ds)
  have "length cs < length (skip_ws inp)" using 6 by simp
  moreover have "length rest < length cs" using 6 string_chars_length [of cs k rest] by simp
  moreover have "length ds < length (skip_ws rest)" using 6 by simp
  ultimately show ?case using skip_ws_length [of inp] skip_ws_length [of rest] by simp
next
  case 7
  then show ?case by simp
qed

declare json_value.simps [simp del] elements.simps [simp del] members.simps [simp del]

text \<open>\<open>JSON.parse(text)\<close>: one value, white space around it, nothing else; or a SyntaxError.\<close>

definition JSON_parse :: "js_string \<Rightarrow> js_error + js_value" where
  "JSON_parse text =
     (case json_value text of
        None \<Rightarrow> Inl SyntaxError
      | Some (v, rest) \<Rightarrow> if skip_ws rest = [] then Inr v else Inl SyntaxError)"

section \<open>The QR decoder (\<open>utils/scanner.ts\<close>)\<close>

text \<open>
  \<open>QRScanResult\<close>. The field \<open>text\<close> is \<open>text'\<close> here. \<open>userId\<close> is declared a string;
  the JSON branch stores whatever value the payload holds, so it is a value here, a
  string being \<open>JStr\<close>. An optional field that is absent is \<open>None\<close>.
\<close>

record QRScanResult =
  text' :: js_string
  userId :: "js_value option"
  isValid :: bool
  error :: "js_string option"

definition SWACHH_USER :: js_string where
  "SWACHH_USER = str ''SWACHH_USER_''"

text \<open>The expression \<open>parsed.userId || parsed.user_id\<close>; \<open>Inl\<close> is a thrown error.\<close>

definition userId_or_user_id :: "js_value \<Rightarrow> js_error + js_value" where
  "userId_or_user_id parsed =
     (case get parsed (str ''userId'') of
        Inl e \<Rightarrow> Inl e
      | Inr a \<Rightarrow> if truthy a then Inr a else get parsed (str ''user_id''))"

text \<open>
  The inner \<open>try\<close> block: \<open>Inl\<close> is an error thrown inside it, \<open>Inr (Some r)\<close> is
  \<open>return r\<close>, and \<open>Inr None\<close> is leaving the block at its end.
\<close>

definition json_branch :: "js_string \<Rightarrow> js_error + QRScanResult option" where
  "json_branch qrText =
     (case JSON_parse qrText of
        Inl e \<Rightarrow> Inl e
      | Inr parsed \<Rightarrow>
          (case userId_or_user_id parsed of
             Inl e \<Rightarrow> Inl e
           | Inr c \<Rightarrow>
               if truthy c then
                 (case userId_or_user_id parsed of
                    Inl e \<Rightarrow> Inl e
                  | Inr u \<Rightarrow>
                      Inr (Some \<lparr>text' = qrText, userId = Some u, isValid = True, error = None\<rparr>))
               else Inr None))"

text \<open>
  The body of the outer \<open>try\<close>: the prefix convention, then the JSON payload, whose
  \<open>catch\<close> swallows every error of the inner block, then the fallback.
\<close>

definition parseQRCode_try :: "js_string \<Rightarrow> js_error + QRScanResult" where
  "parseQRCode_try qrText =
     (if startsWith qrText SWACHH_USER \<and> replace SWACHH_USER [] qrText \<noteq> []
      then Inr \<lparr>text' = qrText, userId = Some (JStr (replace SWACHH_USER [] qrText)),
                 isValid = True, error = None\<rparr>
      else
        (case json_branch qrText of
           Inr (Some r) \<Rightarrow> Inr r
         | _ \<Rightarrow> Inr \<lparr>text' = qrText, userId = Some (JStr qrText), isValid = True, error = None\<rparr>))"

text \<open>\<open>parseQRCode\<close>: the outer \<open>catch\<close> turns an error of the body into the invalid result.\<close>

definition parseQRCode :: "js_string \<Rightarrow> QRScanResult" where
  "parseQRCode qrText =
     (case parseQRCode_try qrText of
        Inr r \<Rightarrow> r
      | Inl e \<Rightarrow>
          \<lparr>text' = qrText, userId = None, isValid = False,
           error = Some (str ''Invalid QR code format'')\<rparr>)"


section \<open>The clock and the random source\<close>

text \<open>
  What an operation reads from outside the store: \<open>Date.now()\<close> in milliseconds,
  \<open>new Date().toISOString()\<close>, and the suffix
  \<open>Math.random().toString(36).substr(2, 9)\<close>.
\<close>

record Env =
  now :: nat
  isoNow :: js_string
  random36 :: js_string

text \<open>The decimal digits of a number, as a template literal prints \<open>Date.now()\<close>.\<close>

fun dec :: "nat \<Rightarrow> js_string" where
  "dec n = (if n < 10 then [0x30 + of_nat n] else dec (n div 10) @ [0x30 + of_nat (n mod 10)])"

declare dec.simps [simp del]

text \<open>The identifier \<open>`${kind}_${Date.now()}_${suffix}`\<close>.\<close>

definition new_id :: "string \<Rightarrow> Env \<Rightarrow> js_string" where
  "new_id kind env = str kind @ str ''_'' @ dec (now env) @ str ''_'' @ random36 env"

section \<open>The event store (\<open>utils/api.ts\<close>)\<close>

datatype WasteType = Dry | Wet | Recyclable | Other

datatype ReportStatus = Pending | Verified | Rejected

text \<open>
  A value of the type \<open>number\<close> as a record carries it: a finite double, which is a real
  number, or one of \<open>NaN\<close>, \<open>Infinity\<close> and \<open>-Infinity\<close>. The sign of zero is not kept;
  \<open>-0\<close> and \<open>0\<close> are equal under \<open>===\<close>.
\<close>

datatype js_number = Finite real | NaN | PosInfinity | NegInfinity

text \<open>
  \<open>JSON.parse(JSON.stringify(x))\<close> for a field \<open>x\<close> that holds a number or \<open>null\<close>
  (\<open>None\<close>): \<open>JSON.stringify\<close> prints a finite number so that it reads back as itself,
  and prints \<open>NaN\<close> and the infinities as \<open>null\<close>.
\<close>

fun json_number :: "js_number option \<Rightarrow> js_number option" where
  "json_number (Some (Finite x)) = Some (Finite x)"
| "json_number (Some NaN) = None"
| "json_number (Some PosInfinity) = None"
| "json_number (Some NegInfinity) = None"
| "json_number None = None"

fun finite_number :: "js_number option \<Rightarrow> bool" where
  "finite_number (Some (Finite x)) = True"
| "finite_number (Some NaN) = False"
| "finite_number (Some PosInfinity) = False"
| "finite_number (Some NegInfinity) = False"
| "finite_number None = False"

text \<open>
  \<open>CollectionLog\<close>, with \<open>id\<close> as \<open>log_id\<close> and \<open>notes\<close> as \<open>notes'\<close>. The argument of
  \<open>logCollection\<close> has the type \<open>Omit<CollectionLog, 'id'>\<close>; it is a \<open>CollectionLog\<close>
  here, and the spread \<open>{...log, id: ...}\<close> sets \<open>log_id\<close> whatever it was. A coordinate
  is a number, or \<open>null\<close> (\<open>None\<close>) in a record read back from the store.
\<close>

record CollectionLog =
  log_id :: "js_string option"
  collector_id :: js_string
  user_id :: js_string
  waste_type :: WasteType
  timestamp :: js_string
  latitude :: "js_number option"
  longitude :: "js_number option"
  notes' :: "js_string option"

text \<open>\<open>IllegalDumpingReport\<close>; the fields it shares with \<open>CollectionLog\<close> carry \<open>report_\<close>.\<close>

record IllegalDumpingReport =
  report_id :: "js_string option"
  report_collector_id :: js_string
  photo_url :: "js_string option"
  photo_base64 :: "js_string option"
  description :: "js_string option"
  report_timestamp :: js_string
  report_latitude :: "js_number option"
  report_longitude :: "js_number option"
  status :: ReportStatus

text \<open>
  \<open>JSON.parse(JSON.stringify(r))\<close> for a record: strings, booleans and absent optional
  fields read back as they were, coordinates as \<open>json_number\<close> gives them.
\<close>

definition json_log :: "CollectionLog \<Rightarrow> CollectionLog" where
  "json_log r = r\<lparr>latitude := json_number (latitude r), longitude := json_number (longitude r)\<rparr>"

definition json_report :: "IllegalDumpingReport \<Rightarrow> IllegalDumpingReport" where
  "json_report r =
     r\<lparr>report_latitude := json_number (report_latitude r),
       report_longitude := json_number (report_longitude r)\<rparr>"

text \<open>\<open>Collector\<close>, with \<open>id\<close> as \<open>collector_ident\<close>.\<close>

record Collector =
  collector_ident :: js_string
  name :: js_string
  phone :: "js_string option"
  area :: "js_string option"
  is_active :: bool

text \<open>\<open>ScanHistory\<close> (\<open>utils/scanner.ts\<close>), its fields \<open>id\<close>, \<open>userId\<close>, \<open>timestamp\<close> carrying \<open>scan_\<close>.\<close>

record ScanHistory =
  scan_id :: js_string
  scan_userId :: js_string
  scan_timestamp :: js_string
  location :: "(real \<times> real) option"
  synced :: bool

text \<open>
  The browser's \<open>localStorage\<close>, at the four keys the program uses:
  \<open>'collection_logs'\<close>, \<open>'dumping_reports'\<close>, \<open>'current_collector'\<close> and
  \<open>'scan_history'\<close>. A key that is not set is \<open>None\<close>. The program stores
  \<open>JSON.stringify\<close> of a value and reads it back with \<open>JSON.parse\<close> at the type it
  declares; the store holds the value that is read back.
\<close>

record Storage =
  collection_logs :: "CollectionLog list option"
  dumping_reports :: "IllegalDumpingReport list option"
  current_collector :: "Collector option"
  scan_history :: "ScanHistory list option"

text \<open>
  \<open>localStorage.setItem\<close> throws a \<open>QuotaExceededError\<close> when the browser has no room for
  the value. Whether it has is not the program's to decide: the writes of \<open>api.ts\<close> take
  it as the argument \<open>full\<close>; those of the scan history cache are taken to succeed.
\<close>

datatype storage_error = QuotaExceededError

text \<open>\<open>LocalStorage.getItem\<close>: \<open>item ? JSON.parse(item) : []\<close>.\<close>

definition getItem :: "'a list option \<Rightarrow> 'a list" where
  "getItem item = (case item of None \<Rightarrow> [] | Some xs \<Rightarrow> xs)"

text \<open>
  \<open>LocalStorage.setItem\<close> at the two keys it is called with:
  \<open>localStorage.setItem(key, JSON.stringify(data))\<close>.
\<close>

definition setItem_collection_logs ::
  "bool \<Rightarrow> CollectionLog list \<Rightarrow> Storage \<Rightarrow> storage_error + Storage" where
  "setItem_collection_logs full data s =
     (if full then Inl QuotaExceededError
      else Inr (s\<lparr>collection_logs := Some (map json_log data)\<rparr>))"

definition setItem_dumping_reports ::
  "bool \<Rightarrow> IllegalDumpingReport list \<Rightarrow> Storage \<Rightarrow> storage_error + Storage" where
  "setItem_dumping_reports full data s =
     (if full then Inl QuotaExceededError
      else Inr (s\<lparr>dumping_reports := Some (map json_report data)\<rparr>))"

definition LocalStorage_getCollectionLogs :: "Storage \<Rightarrow> CollectionLog list" where
  "LocalStorage_getCollectionLogs s = getItem (collection_logs s)"

text \<open>
  \<open>addCollectionLog\<close> returns the record it built in memory; what the store holds is
  that record as its JSON text reads back.
\<close>

definition addCollectionLog ::
  "bool \<Rightarrow> Env \<Rightarrow> CollectionLog \<Rightarrow> Storage \<Rightarrow> storage_error + CollectionLog \<times> Storage" where
  "addCollectionLog full env log' s =
     (let logs = LocalStorage_getCollectionLogs s;
          newLog = log'\<lparr>log_id := Some (new_id ''log'' env)\<rparr>
      in case setItem_collection_logs full (logs @ [newLog]) s of
           Inl e \<Rightarrow> Inl e
         | Inr s' \<Rightarrow> Inr (newLog, s'))"

definition getIllegalDumpingReports :: "Storage \<Rightarrow> IllegalDumpingReport list" where
  "getIllegalDumpingReports s = getItem (dumping_reports s)"

definition addDumpingReport ::
  "bool \<Rightarrow> Env \<Rightarrow> IllegalDumpingReport \<Rightarrow> Storage \<Rightarrow>
   storage_error + IllegalDumpingReport \<times> Storage" where
  "addDumpingReport full env report s =
     (let reports = getIllegalDumpingReports s;
          newReport = report\<lparr>report_id := Some (new_id ''report'' env)\<rparr>
      in case setItem_dumping_reports full (reports @ [newReport]) s of
           Inl e \<Rightarrow> Inl e
         | Inr s' \<Rightarrow> Inr (newReport, s'))"

definition LocalStorage_getCurrentCollector :: "Storage \<Rightarrow> Collector option" where
  "LocalStorage_getCurrentCollector s = current_collector s"

definition setCurrentCollector :: "bool \<Rightarrow> Collector \<Rightarrow> Storage \<Rightarrow> storage_error + Storage" where
  "setCurrentCollector full collector s =
     (if full then Inl QuotaExceededError else Inr (s\<lparr>current_collector := Some collector\<rparr>))"

text \<open>\<open>localStorage.removeItem('current_collector')\<close>.\<close>

definition clearCurrentCollector :: "Storage \<Rightarrow> Storage" where
  "clearCurrentCollector s = s\<lparr>current_collector := None\<rparr>"

subsection \<open>\<open>CollectorAPI\<close>\<close>

text \<open>
  An \<open>async\<close> method is its resolved value and the store after it, or the error its
  promise is rejected with.
\<close>

definition new_collector :: "js_string \<Rightarrow> Collector" where
  "new_collector collectorId =
     \<lparr>collector_ident = collectorId, name = str ''Collector '' @ collectorId,
      phone = None, area = None, is_active = True\<rparr>"

definition login :: "bool \<Rightarrow> js_string \<Rightarrow> Storage \<Rightarrow> storage_error + Collector \<times> Storage" where
  "login full collectorId s =
     (case LocalStorage_getCurrentCollector s of
        Some existing \<Rightarrow>
          if collector_ident existing = collectorId then Inr (existing, s)
          else
            (case setCurrentCollector full (new_collector collectorId) s of
               Inl e \<Rightarrow> Inl e
             | Inr s' \<Rightarrow> Inr (new_collector collectorId, s'))
      | None \<Rightarrow>
          (case setCurrentCollector full (new_collector collectorId) s of
             Inl e \<Rightarrow> Inl e
           | Inr s' \<Rightarrow> Inr (new_collector collectorId, s')))"

definition logout :: "Storage \<Rightarrow> Storage" where
  "logout s = clearCurrentCollector s"

definition getCurrentCollector :: "Storage \<Rightarrow> Collector option" where
  "getCurrentCollector s = LocalStorage_getCurrentCollector s"

definition logCollection ::
  "bool \<Rightarrow> Env \<Rightarrow> CollectionLog \<Rightarrow> Storage \<Rightarrow> storage_error + CollectionLog \<times> Storage" where
  "logCollection full env data s = addCollectionLog full env data s"

text \<open>
  \<open>getCollectionLogs(collectorId?)\<close>: the filter is applied when \<open>collectorId\<close> is truthy,
  that is given and not the empty string.
\<close>

definition getCollectionLogs :: "js_string option \<Rightarrow> Storage \<Rightarrow> CollectionLog list" where
  "getCollectionLogs collectorId s =
     (let logs = LocalStorage_getCollectionLogs s
      in case collectorId of
           None \<Rightarrow> logs
         | Some c \<Rightarrow> if c \<noteq> [] then filter (\<lambda>log'. collector_id log' = c) logs else logs)"

definition reportIllegalDumping ::
  "bool \<Rightarrow> Env \<Rightarrow> IllegalDumpingReport \<Rightarrow> Storage \<Rightarrow>
   storage_error + IllegalDumpingReport \<times> Storage" where
  "reportIllegalDumping full env data s = addDumpingReport full env data s"

definition getDumpingReports :: "js_string option \<Rightarrow> Storage \<Rightarrow> IllegalDumpingReport list" where
  "getDumpingReports collectorId s =
     (let reports = getIllegalDumpingReports s
      in case collectorId of
           None \<Rightarrow> reports
         | Some c \<Rightarrow> if c \<noteq> [] then filter (\<lambda>report. report_collector_id report = c) reports else reports)"

section \<open>The scan history cache (\<open>ScanHistoryManager\<close>)\<close>

definition getHistory :: "Storage \<Rightarrow> ScanHistory list" where
  "getHistory s = getItem (scan_history s)"

definition saveHistory :: "ScanHistory list \<Rightarrow> Storage \<Rightarrow> Storage" where
  "saveHistory history s = s\<lparr>scan_history := Some history\<rparr>"

definition addScan :: "Env \<Rightarrow> js_string \<Rightarrow> (real \<times> real) option \<Rightarrow> Storage \<Rightarrow> ScanHistory \<times> Storage" where
  "addScan env uid loc s =
     (let scan = \<lparr>scan_id = new_id ''scan'' env, scan_userId = uid, scan_timestamp = isoNow env,
                    location = loc, synced = False\<rparr>;
          history = getHistory s
      in (scan, saveHistory (history @ [scan]) s))"

definition getUnsyncedScans :: "Storage \<Rightarrow> ScanHistory list" where
  "getUnsyncedScans s = filter (\<lambda>scan. \<not> synced scan) (getHistory s)"

text \<open>
  \<open>markAsSynced\<close>: \<open>history.find\<close> gives the first entry with the identifier, the
  assignment \<open>scan.synced = true\<close> changes that entry inside the array, and the array is
  saved; with no such entry, nothing is written.
\<close>

definition markAsSynced :: "js_string \<Rightarrow> Storage \<Rightarrow> Storage" where
  "markAsSynced scanId s =
     (let history = getHistory s
      in case find (\<lambda>x. scan_id x = scanId) history of
           None \<Rightarrow> s
         | Some scan \<Rightarrow>
             saveHistory
               (history[length (takeWhile (\<lambda>x. scan_id x \<noteq> scanId) history) := scan\<lparr>synced := True\<rparr>])
               s)"

definition clearSyncedScans :: "Storage \<Rightarrow> Storage" where
  "clearSyncedScans s = saveHistory (filter (\<lambda>scan. \<not> synced scan) (getHistory s)) s"


section \<open>The distance helper (\<open>utils/location.ts\<close>)\<close>

text \<open>
  The arithmetic of the type \<open>number\<close> that \<open>calculateDistance\<close> uses, as operations on a
  type \<open>'n\<close> of numbers: integer literals, \<open>NaN\<close>, unary minus, \<open>+\<close>, \<open>-\<close>, \<open>*\<close>, \<open>/\<close>,
  the comparison \<open>===\<close>, and \<open>Math.PI\<close>, \<open>Math.sin\<close>, \<open>Math.cos\<close>, \<open>Math.sqrt\<close> and
  \<open>Math.atan2\<close>. The source never negates; the minus is there to state how the other
  operations treat the sign.
\<close>

record 'n number_ops =
  n_lit :: "int \<Rightarrow> 'n"
  n_nan :: 'n
  n_neg :: "'n \<Rightarrow> 'n"
  n_add :: "'n \<Rightarrow> 'n \<Rightarrow> 'n"
  n_sub :: "'n \<Rightarrow> 'n \<Rightarrow> 'n"
  n_mul :: "'n \<Rightarrow> 'n \<Rightarrow> 'n"
  n_div :: "'n \<Rightarrow> 'n \<Rightarrow> 'n"
  n_eq :: "'n \<Rightarrow> 'n \<Rightarrow> bool"
  Math_PI :: 'n
  Math_sin :: "'n \<Rightarrow> 'n"
  Math_cos :: "'n \<Rightarrow> 'n"
  Math_sqrt :: "'n \<Rightarrow> 'n"
  Math_atan2 :: "'n \<Rightarrow> 'n \<Rightarrow> 'n"

definition toRadian :: "'n number_ops \<Rightarrow> 'n \<Rightarrow> 'n" where
  "toRadian N degree = n_mul N degree (n_div N (Math_PI N) (n_lit N 180))"

definition calculateDistance :: "'n number_ops \<Rightarrow> 'n \<Rightarrow> 'n \<Rightarrow> 'n \<Rightarrow> 'n \<Rightarrow> 'n" where
  "calculateDistance N lat1 lng1 lat2 lng2 =
     (let R = n_lit N 6371;
          dLat = toRadian N (n_sub N lat2 lat1);
          dLng = toRadian N (n_sub N lng2 lng1);
          a = n_add N
                (n_mul N (Math_sin N (n_div N dLat (n_lit N 2)))
                         (Math_sin N (n_div N dLat (n_lit N 2))))
                (n_mul N
                   (n_mul N
                      (n_mul N (Math_cos N (toRadian N lat1)) (Math_cos N (toRadian N lat2)))
                      (Math_sin N (n_div N dLng (n_lit N 2))))
                   (Math_sin N (n_div N dLng (n_lit N 2))));
          c = n_mul N (n_lit N 2)
                (Math_atan2 N (Math_sqrt N a) (Math_sqrt N (n_sub N (n_lit N 1) a)))
      in n_mul N R c)"

text \<open>\<open>Math.sin(d / 2)\<close> for a difference \<open>d\<close> in degrees turned into radians.\<close>

definition half_sine :: "'n number_ops \<Rightarrow> 'n \<Rightarrow> 'n" where
  "half_sine N d = Math_sin N (n_div N (toRadian N d) (n_lit N 2))"

text \<open>
  What IEEE 754 and the language fix of these operations, whatever the rounding:
  \<open>===\<close> holds of a number and itself unless it is \<open>NaN\<close>, and a literal is not \<open>NaN\<close>;
  every operation with a \<open>NaN\<close> operand gives \<open>NaN\<close>.
\<close>

definition nan_laws :: "'n number_ops \<Rightarrow> bool" where
  "nan_laws N =
     ((\<forall>x. n_eq N x x = (x \<noteq> n_nan N)) \<and>
      (\<forall>k. n_lit N k \<noteq> n_nan N) \<and>
      (\<forall>x. n_add N (n_nan N) x = n_nan N) \<and> (\<forall>x. n_add N x (n_nan N) = n_nan N) \<and>
      (\<forall>x. n_sub N (n_nan N) x = n_nan N) \<and> (\<forall>x. n_sub N x (n_nan N) = n_nan N) \<and>
      (\<forall>x. n_mul N (n_nan N) x = n_nan N) \<and> (\<forall>x. n_mul N x (n_nan N) = n_nan N) \<and>
      (\<forall>x. n_div N (n_nan N) x = n_nan N) \<and> (\<forall>x. n_div N x (n_nan N) = n_nan N) \<and>
      Math_sin N (n_nan N) = n_nan N \<and> Math_cos N (n_nan N) = n_nan N \<and>
      Math_sqrt N (n_nan N) = n_nan N \<and>
      (\<forall>x. Math_atan2 N (n_nan N) x = n_nan N) \<and> (\<forall>x. Math_atan2 N x (n_nan N) = n_nan N))"

text \<open>
  The sign: rounding is symmetric, so a product and a quotient change sign with an
  operand, \<open>y - x\<close> is minus \<open>x - y\<close> (or both are the zero \<open>x - x\<close>), and \<open>*\<close> commutes.
  That \<open>Math.sin\<close> is odd is a property of the engine's sine, which the language leaves
  to the implementation.
\<close>

definition sign_laws :: "'n number_ops \<Rightarrow> bool" where
  "sign_laws N =
     ((\<forall>x. n_neg N (n_neg N x) = x) \<and>
      (\<forall>x y. n_mul N x y = n_mul N y x) \<and>
      (\<forall>x y. n_mul N (n_neg N x) y = n_neg N (n_mul N x y)) \<and>
      (\<forall>x y. n_div N (n_neg N x) y = n_neg N (n_div N x y)) \<and>
      (\<forall>x y. n_sub N y x = n_neg N (n_sub N x y) \<or> n_sub N y x = n_sub N x y) \<and>
      (\<forall>x. Math_sin N (n_neg N x) = n_neg N (Math_sin N x)))"

text \<open>
  The exact results at zero and one: \<open>0 - 0\<close>, \<open>0 + 0\<close>, \<open>0 / 2\<close> and the products of
  zero with a literal that is not negative and with \<open>Math.PI / 180\<close> are \<open>0\<close>;
  \<open>1 * 1\<close> and \<open>1 - 0\<close> are \<open>1\<close>; \<open>Math.sin(0)\<close>, \<open>Math.sqrt(0)\<close> and
  \<open>Math.atan2(0, 1)\<close> are \<open>0\<close>; \<open>Math.cos(0)\<close> and \<open>Math.sqrt(1)\<close> are \<open>1\<close>.
\<close>

definition zero_laws :: "'n number_ops \<Rightarrow> bool" where
  "zero_laws N =
     (n_sub N (n_lit N 0) (n_lit N 0) = n_lit N 0 \<and>
      n_add N (n_lit N 0) (n_lit N 0) = n_lit N 0 \<and>
      n_div N (n_lit N 0) (n_lit N 2) = n_lit N 0 \<and>
      (\<forall>k. 0 \<le> k \<longrightarrow> n_mul N (n_lit N k) (n_lit N 0) = n_lit N 0) \<and>
      n_mul N (n_lit N 0) (n_div N (Math_PI N) (n_lit N 180)) = n_lit N 0 \<and>
      n_mul N (n_lit N 1) (n_lit N 1) = n_lit N 1 \<and>
      n_sub N (n_lit N 1) (n_lit N 0) = n_lit N 1 \<and>
      Math_sin N (n_lit N 0) = n_lit N 0 \<and>
      Math_cos N (n_lit N 0) = n_lit N 1 \<and>
      Math_sqrt N (n_lit N 0) = n_lit N 0 \<and>
      Math_sqrt N (n_lit N 1) = n_lit N 1 \<and>
      Math_atan2 N (n_lit N 0) (n_lit N 1) = n_lit N 0)"

definition number_laws :: "'n number_ops \<Rightarrow> bool" where
  "number_laws N = (nan_laws N \<and> sign_laws N \<and> zero_laws N)"

text \<open>
  An arithmetic that has these properties: the real numbers and \<open>NaN\<close>, with no rounding
  and no infinities. A division by zero and the root of a negative number give \<open>NaN\<close>.
\<close>

datatype exact = Exact real | NotANumber

fun exact1 :: "(real \<Rightarrow> real) \<Rightarrow> exact \<Rightarrow> exact" where
  "exact1 f (Exact x) = Exact (f x)"
| "exact1 f NotANumber = NotANumber"

fun exact2 :: "(real \<Rightarrow> real \<Rightarrow> real) \<Rightarrow> exact \<Rightarrow> exact \<Rightarrow> exact" where
  "exact2 f (Exact x) (Exact y) = Exact (f x y)"
| "exact2 f NotANumber y = NotANumber"
| "exact2 f x NotANumber = NotANumber"

fun exact_div :: "exact \<Rightarrow> exact \<Rightarrow> exact" where
  "exact_div (Exact x) (Exact y) = (if y = 0 then NotANumber else Exact (x / y))"
| "exact_div NotANumber y = NotANumber"
| "exact_div x NotANumber = NotANumber"

fun exact_sqrt :: "exact \<Rightarrow> exact" where
  "exact_sqrt (Exact x) = (if x < 0 then NotANumber else Exact (sqrt x))"
| "exact_sqrt NotANumber = NotANumber"

fun exact_eq :: "exact \<Rightarrow> exact \<Rightarrow> bool" where
  "exact_eq (Exact x) (Exact y) = (x = y)"
| "exact_eq NotANumber y = False"
| "exact_eq x NotANumber = False"

definition atan2 :: "real \<Rightarrow> real \<Rightarrow> real" where
  "atan2 y x =
     (if 0 < x then arctan (y / x)
      else if x < 0 \<and> 0 \<le> y then arctan (y / x) + pi
      else if x < 0 then arctan (y / x) - pi
      else if 0 < y then pi / 2
      else if y < 0 then - (pi / 2)
      else 0)"

definition exact_ops :: "exact number_ops" where
  "exact_ops =
     \<lparr>n_lit = (\<lambda>k. Exact (of_int k)), n_nan = NotANumber, n_neg = exact1 uminus,
      n_add = exact2 (+), n_sub = exact2 (-), n_mul = exact2 (*), n_div = exact_div,
      n_eq = exact_eq, Math_PI = Exact pi, Math_sin = exact1 sin, Math_cos = exact1 cos,
      Math_sqrt = exact_sqrt, Math_atan2 = exact2 atan2\<rparr>"

section \<open>The parser consumes its input\<close>

text \<open>
  Every parser that succeeds returns a rest shorter than its input, so the two length
  tests in \<open>elements\<close> and \<open>members\<close> always hold where they are reached.
\<close>

lemma fraction_length: "fraction s = Some (fp, r) \<Longrightarrow> length r \<le> length s"
proof (cases s)
  case Nil
  then show ?thesis if "fraction s = Some (fp, r)" using that by (simp add: fraction_def)
next
  case (Cons c cs)
  assume a: "fraction s = Some (fp, r)"
  have "r = s \<or> r = dropWhile is_digit cs"
    using a Cons by (cases "c = 0x2E"; cases "takeWhile is_digit cs = []") (simp_all add: fraction_def)
  then show ?thesis
    using Cons length_dropWhile_le [of is_digit cs] by auto
qed

lemma exponent_sign_length: "length (snd (exponent_sign s)) \<le> length s"
  by (cases s) (simp_all add: exponent_sign_def)

lemma exponent_length:
  assumes a: "exponent s = Some (ex, r)"
  shows "length r \<le> length s"
proof (cases s)
  case Nil
  then show ?thesis using a by (simp add: exponent_def)
next
  case (Cons c cs)
  obtain sg ds where sd: "exponent_sign cs = (sg, ds)"
    by (cases "exponent_sign cs")
  have "r = s \<or> r = dropWhile is_digit ds"
    using a Cons sd
    by (cases "c = 0x65 \<or> c = 0x45"; cases "takeWhile is_digit ds = []") (simp_all add: exponent_def)
  then show ?thesis
    using Cons sd exponent_sign_length [of cs] length_dropWhile_le [of is_digit ds] by auto
qed

lemma minus_sign_length: "length (snd (minus_sign s)) \<le> length s"
  by (cases s) (simp_all add: minus_sign_def)

lemma int_part_length: "length (int_part s) \<le> length s"
proof (cases s)
  case Nil
  then show ?thesis by (simp add: int_part_def)
next
  case (Cons c cs)
  then show ?thesis
    using length_takeWhile_le [of is_digit s] by (cases "c = 0x30") (simp_all add: int_part_def)
qed

lemma number_length:
  assumes a: "number s = Some (q, r)"
  shows "length r < length s"
proof -
  obtain neg s0 where ns: "minus_sign s = (neg, s0)"
    by (cases "minus_sign s")
  have nz: "int_part s0 \<noteq> []"
    using a ns by (cases "int_part s0 = []") (simp_all add: number_def)
  obtain fp s2 where f: "fraction (drop (length (int_part s0)) s0) = Some (fp, s2)"
    using a ns nz by (cases "fraction (drop (length (int_part s0)) s0)") (auto simp: number_def)
  obtain ex where e: "exponent s2 = Some (ex, r)"
    using a ns nz f by (cases "exponent s2") (auto simp: number_def)
  have "length s2 \<le> length s0 - length (int_part s0)" using fraction_length [OF f] by simp
  moreover have "length r \<le> length s2" using exponent_length [OF e] .
  moreover have "0 < length (int_part s0)" using nz by simp
  moreover have "length s0 \<le> length s" using ns minus_sign_length [of s] by simp
  moreover have "length (int_part s0) \<le> length s0" by (rule int_part_length)
  ultimately show ?thesis by linarith
qed

lemma skip_ws_Cons_length: "skip_ws s = c # cs \<Longrightarrow> length cs < length s"
  using skip_ws_length [of s] by simp

lemma json_value_shorter:
  "json_value inp = Some (v, r) \<Longrightarrow> length r < length inp"
  "elements inp1 = Some (vs, r1) \<Longrightarrow> length r1 < length inp1"
  "members inp2 = Some (kvs, r2) \<Longrightarrow> length r2 < length inp2"
proof (induction inp and inp1 and inp2 arbitrary: v r and vs r1 and kvs r2 rule: json_value_elements_members.induct)
  case (1 inp)
  obtain c cs where sk: "skip_ws inp = c # cs"
    using "1.prems" by (cases "skip_ws inp") (simp_all add: json_value.simps [of inp])
  have le: "length cs < length inp"
    using sk by (rule skip_ws_Cons_length)
  show ?case
  proof (cases "c = 0x7B")
    case True
    obtain d ds where sk2: "skip_ws cs = d # ds"
      using "1.prems" sk True by (cases "skip_ws cs") (simp_all add: json_value.simps [of inp])
    show ?thesis
    proof (cases "d = 0x7D")
      case T: True
      then have "r = ds" using "1.prems" sk True sk2 by (simp add: json_value.simps [of inp])
      then show ?thesis using skip_ws_Cons_length [OF sk2] le by simp
    next
      case False
      then obtain kvs where "members cs = Some (kvs, r)"
        using "1.prems" sk True sk2 by (auto simp: json_value.simps [of inp])
      then have "length r < length cs"
        using "1.IH"(1) [OF sk True sk2 False] by simp
      then show ?thesis using le by simp
    qed
  next
    case nobj: False
    show ?thesis
    proof (cases "c = 0x5B")
      case True
      obtain d ds where sk2: "skip_ws cs = d # ds"
        using "1.prems" sk True by (cases "skip_ws cs") (simp_all add: json_value.simps [of inp])
      show ?thesis
      proof (cases "d = 0x5D")
        case T: True
        then have "r = ds" using "1.prems" sk True sk2 by (simp add: json_value.simps [of inp])
        then show ?thesis using skip_ws_Cons_length [OF sk2] le by simp
      next
        case False
        then obtain vs where "elements cs = Some (vs, r)"
          using "1.prems" sk True sk2 by (auto simp: json_value.simps [of inp])
        then have "length r < length cs"
          using "1.IH"(2) [OF sk nobj True sk2 False] by simp
        then show ?thesis using le by simp
      qed
    next
      case narr: False
      have eq: "json_value inp =
          (if c = 0x22 then map_option (\<lambda>(s, r). (JStr s, r)) (string_chars cs)
           else if startsWith (c # cs) (str ''true'') then Some (JBool True, drop 4 (c # cs))
           else if startsWith (c # cs) (str ''false'') then Some (JBool False, drop 5 (c # cs))
           else if startsWith (c # cs) (str ''null'') then Some (JNull, drop 4 (c # cs))
           else if c = 0x2D \<or> is_digit c then map_option (\<lambda>(q, r). (JNum q, r)) (number (c # cs))
           else None)"
        using sk nobj narr by (simp add: json_value.simps [of inp])
      have "length r \<le> length cs"
      proof (cases "c = 0x22")
        case True
        then obtain s where "string_chars cs = Some (s, r)"
          using "1.prems" eq by auto
        then show ?thesis using string_chars_length by fastforce
      next
        case nstr: False
        show ?thesis
        proof (cases "startsWith (c # cs) (str ''true'') \<or> startsWith (c # cs) (str ''false'') \<or>
                      startsWith (c # cs) (str ''null'')")
          case True
          then have "r = drop 4 (c # cs) \<or> r = drop 5 (c # cs)"
            using "1.prems" eq nstr by (auto split: if_splits)
          then show ?thesis by auto
        next
          case False
          then obtain q where "number (c # cs) = Some (q, r)"
            using "1.prems" eq nstr by (auto split: if_splits)
          then have "length r < length (c # cs)" by (rule number_length)
          then show ?thesis by simp
        qed
      qed
      then show ?thesis using le by simp
    qed
  qed
next
  case (2 inp)
  obtain v rest where jv: "json_value inp = Some (v, rest)"
    using "2.prems" by (cases "json_value inp") (auto simp: elements.simps [of inp])
  have l1: "length rest < length inp"
    using "2.IH"(1) [OF jv] .
  obtain c cs where sk: "skip_ws rest = c # cs"
    using "2.prems" jv by (cases "skip_ws rest") (simp_all add: elements.simps [of inp])
  have l2: "length cs < length rest"
    using sk by (rule skip_ws_Cons_length)
  show ?case
  proof (cases "c = 0x2C")
    case True
    have g: "length cs < length inp" using l1 l2 by simp
    obtain ws where "elements cs = Some (ws, r1)"
      using "2.prems" jv sk True g by (auto simp: elements.simps [of inp])
    then have "length r1 < length cs"
      using "2.IH"(2) [OF jv refl sk True g] by simp
    then show ?thesis using g by simp
  next
    case False
    then have "r1 = cs"
      using "2.prems" jv sk by (auto simp: elements.simps [of inp] split: if_splits)
    then show ?thesis using l1 l2 by simp
  qed
next
  case (3 inp)
  obtain c cs where sk: "skip_ws inp = c # cs"
    using "3.prems" by (cases "skip_ws inp") (simp_all add: members.simps [of inp])
  have q: "c = 0x22"
    using "3.prems" sk by (cases "c = 0x22") (simp_all add: members.simps [of inp])
  obtain k rest where sc: "string_chars cs = Some (k, rest)"
    using "3.prems" sk q by (cases "string_chars cs") (auto simp: members.simps [of inp])
  obtain d ds where sk2: "skip_ws rest = d # ds"
    using "3.prems" sk q sc by (cases "skip_ws rest") (simp_all add: members.simps [of inp])
  have colon: "d = 0x3A"
    using "3.prems" sk q sc sk2 by (cases "d = 0x3A") (simp_all add: members.simps [of inp])
  obtain v rest' where jv: "json_value ds = Some (v, rest')"
    using "3.prems" sk q sc sk2 colon by (cases "json_value ds") (auto simp: members.simps [of inp])
  obtain e es where sk3: "skip_ws rest' = e # es"
    using "3.prems" sk q sc sk2 colon jv by (cases "skip_ws rest'") (simp_all add: members.simps [of inp])
  have l: "length es < length inp"
    using skip_ws_Cons_length [OF sk] string_chars_length [OF sc] skip_ws_Cons_length [OF sk2]
      "3.IH"(1) [OF sk q sc refl sk2 colon jv] skip_ws_Cons_length [OF sk3]
    by simp
  show ?case
  proof (cases "e = 0x2C")
    case True
    obtain ws where "members es = Some (ws, r2)"
      using "3.prems" sk q sc sk2 colon jv sk3 True l by (auto simp: members.simps [of inp])
    then have "length r2 < length es"
      using "3.IH"(2) [OF sk q sc refl sk2 colon jv refl sk3 True l] by simp
    then show ?thesis using l by simp
  next
    case False
    then have "r2 = es"
      using "3.prems" sk q sc sk2 colon jv sk3 by (auto simp: members.simps [of inp] split: if_splits)
    then show ?thesis using l by simp
  qed
qed


section \<open>Properties of the QR decoder\<close>

lemma replace_startsWith: "startsWith t p \<Longrightarrow> replace p [] t = drop (length p) t"
  by (cases t) (auto simp: startsWith_def)

lemma replace_prefix: "replace p [] (p @ s) = s"
  using replace_startsWith [of "p @ s" p] by (simp add: startsWith_def)

text \<open>
  C3. For an input \<open>SWACHH_USER_<id>\<close> with a non-empty \<open>id\<close>, removing the first
  occurrence of the prefix leaves \<open>id\<close>, and \<open>parseQRCode\<close> returns a valid result whose
  \<open>userId\<close> is \<open>id\<close>.
\<close>

theorem parseQRCode_prefix:
  "ident \<noteq> [] \<Longrightarrow>
   replace SWACHH_USER [] (SWACHH_USER @ ident) = ident \<and>
   parseQRCode (SWACHH_USER @ ident) =
     \<lparr>text' = SWACHH_USER @ ident, userId = Some (JStr ident), isValid = True, error = None\<rparr>"
  by (simp add: parseQRCode_def parseQRCode_try_def replace_prefix startsWith_def)

theorem parseQRCode_prefix_witness:
  "str ''H42'' \<noteq> [] \<and>
   parseQRCode (str ''SWACHH_USER_H42'') =
     \<lparr>text' = str ''SWACHH_USER_H42'', userId = Some (JStr (str ''H42'')),
      isValid = True, error = None\<rparr>"
  using parseQRCode_prefix [of "str ''H42''"] by (simp add: SWACHH_USER_def str_def)

text \<open>
  C10. For the input \<open>SWACHH_USER_\<close> the stripped identifier is empty, the text is no
  JSON, and the fallback returns a valid result whose \<open>userId\<close> is the whole input.
\<close>

theorem parseQRCode_empty_identifier:
  "startsWith (str ''SWACHH_USER_'') SWACHH_USER \<and>
   replace SWACHH_USER [] (str ''SWACHH_USER_'') = [] \<and>
   JSON_parse (str ''SWACHH_USER_'') = Inl SyntaxError \<and>
   parseQRCode (str ''SWACHH_USER_'') =
     \<lparr>text' = str ''SWACHH_USER_'', userId = Some (JStr (str ''SWACHH_USER_'')),
      isValid = True, error = None\<rparr>"
  by code_simp

text \<open>
  C4. \<open>parseQRCode\<close> returns for every input; the body of its \<open>try\<close> never ends in an
  error, so the invalid result of the \<open>catch\<close> is never returned: every result is valid
  and carries no error message.
\<close>

theorem parseQRCode_total:
  "(\<exists>r. parseQRCode_try qrText = Inr r \<and> parseQRCode qrText = r) \<and>
   isValid (parseQRCode qrText) \<and> error (parseQRCode qrText) = None \<and>
   text' (parseQRCode qrText) = qrText"
  by (auto simp: parseQRCode_def parseQRCode_try_def json_branch_def
      split: sum.splits option.splits if_splits)

text \<open>
  C2. For a non-empty input that does not start with the prefix and is not the JSON text
  of an object with a \<open>userId\<close> or \<open>user_id\<close> member, \<open>parseQRCode\<close> returns a valid
  result whose \<open>userId\<close> is the whole input.
\<close>

theorem parseQRCode_fallback:
  assumes "qrText \<noteq> []"
    and "\<not> startsWith qrText SWACHH_USER"
    and "\<not> (\<exists>kvs. JSON_parse qrText = Inr (JObj kvs) \<and>
               (own_property kvs (str ''userId'') \<noteq> None \<or>
                own_property kvs (str ''user_id'') \<noteq> None))"
  shows "parseQRCode qrText =
           \<lparr>text' = qrText, userId = Some (JStr qrText), isValid = True, error = None\<rparr>"
proof (cases "JSON_parse qrText")
  case (Inl e)
  then show ?thesis using assms(2)
    by (simp add: parseQRCode_def parseQRCode_try_def json_branch_def)
next
  case (Inr parsed)
  have "userId_or_user_id parsed = Inl TypeError \<or> userId_or_user_id parsed = Inr JUndefined"
  proof (cases parsed)
    case (JObj kvs)
    then show ?thesis using assms(3) Inr
      by (simp add: userId_or_user_id_def member_def)
  qed (simp_all add: userId_or_user_id_def)
  then show ?thesis using assms(2) Inr
    by (auto simp: parseQRCode_def parseQRCode_try_def json_branch_def)
qed

theorem parseQRCode_fallback_witness:
  \<open>str ''{"name":"x"}'' \<noteq> [] \<and>
   JSON_parse (str ''{"name":"x"}'') = Inr (JObj [(str ''name'', JStr (str ''x''))]) \<and>
   parseQRCode (str ''{"name":"x"}'') =
     \<lparr>text' = str ''{"name":"x"}'', userId = Some (JStr (str ''{"name":"x"}'')),
      isValid = True, error = None\<rparr>\<close>
proof -
  have 1: \<open>str ''{"name":"x"}'' \<noteq> []\<close>
    by (simp add: str_def)
  have 2: \<open>\<not> startsWith (str ''{"name":"x"}'') SWACHH_USER\<close>
    by code_simp
  have p: \<open>JSON_parse (str ''{"name":"x"}'') = Inr (JObj [(str ''name'', JStr (str ''x''))])\<close>
    by code_simp
  have 3: \<open>\<not> (\<exists>kvs. JSON_parse (str ''{"name":"x"}'') = Inr (JObj kvs) \<and>
               (own_property kvs (str ''userId'') \<noteq> None \<or>
                own_property kvs (str ''user_id'') \<noteq> None))\<close>
    unfolding p by (simp add: own_property_def str_def)
  show ?thesis using 1 p parseQRCode_fallback [OF 1 2 3] by simp
qed

text \<open>
  C1, as stated, fails: the text \<open>{"userId":""}\<close> does not start with the prefix and is
  the JSON text of an object with a \<open>userId\<close> member, whose value is the empty string;
  \<open>parseQRCode\<close> returns the whole input as \<open>userId\<close>, not that value.
\<close>

theorem parseQRCode_json_falsy_counterexample:
  \<open>\<not> startsWith (str ''{"userId":""}'') SWACHH_USER \<and>
   JSON_parse (str ''{"userId":""}'') = Inr (JObj [(str ''userId'', JStr [])]) \<and>
   own_property [(str ''userId'', JStr [])] (str ''userId'') = Some (JStr []) \<and>
   userId (parseQRCode (str ''{"userId":""}'')) = Some (JStr (str ''{"userId":""}'')) \<and>
   userId (parseQRCode (str ''{"userId":""}'')) \<noteq> Some (JStr [])\<close>
  by code_simp

text \<open>
  C1, amended. For an input that does not start with the prefix and is the JSON text of an
  object whose \<open>userId\<close> or \<open>user_id\<close> member is truthy (not \<open>null\<close>, \<open>false\<close>, zero or the
  empty string), \<open>parseQRCode\<close> returns a valid result whose \<open>userId\<close> is the value of
  \<open>userId\<close> when that is truthy, and the value of \<open>user_id\<close> otherwise.
\<close>

theorem parseQRCode_json:
  assumes "\<not> startsWith qrText SWACHH_USER"
    and "JSON_parse qrText = Inr (JObj kvs)"
    and "truthy (member kvs (str ''userId'')) \<or> truthy (member kvs (str ''user_id''))"
  shows "parseQRCode qrText =
           \<lparr>text' = qrText,
            userId = Some (if truthy (member kvs (str ''userId'')) then member kvs (str ''userId'')
                           else member kvs (str ''user_id'')),
            isValid = True, error = None\<rparr>"
  using assms
  by (auto simp: parseQRCode_def parseQRCode_try_def json_branch_def userId_or_user_id_def)

theorem parseQRCode_json_witness:
  \<open>JSON_parse (str ''{"userId":"abc","user_id":"xyz"}'') =
     Inr (JObj [(str ''userId'', JStr (str ''abc'')), (str ''user_id'', JStr (str ''xyz''))]) \<and>
   parseQRCode (str ''{"userId":"abc","user_id":"xyz"}'') =
     \<lparr>text' = str ''{"userId":"abc","user_id":"xyz"}'', userId = Some (JStr (str ''abc'')),
      isValid = True, error = None\<rparr>\<close>
proof -
  have 1: \<open>\<not> startsWith (str ''{"userId":"abc","user_id":"xyz"}'') SWACHH_USER\<close>
    by code_simp
  have 2: \<open>JSON_parse (str ''{"userId":"abc","user_id":"xyz"}'') =
     Inr (JObj [(str ''userId'', JStr (str ''abc'')), (str ''user_id'', JStr (str ''xyz''))])\<close>
    by code_simp
  have 3: \<open>truthy (member [(str ''userId'', JStr (str ''abc'')), (str ''user_id'', JStr (str ''xyz''))]
                (str ''userId''))\<close>
    by code_simp
  have 4: \<open>member [(str ''userId'', JStr (str ''abc'')), (str ''user_id'', JStr (str ''xyz''))]
                (str ''userId'') = JStr (str ''abc'')\<close>
    by code_simp
  have 5: \<open>str ''abc'' \<noteq> []\<close>
    by (simp add: str_def)
  show ?thesis
    using 2 5 parseQRCode_json [OF 1 2 disjI1 [OF 3]] unfolding 4 by simp
qed

section \<open>Properties of the event store\<close>

lemma digit_unat: "k < 10 \<Longrightarrow> unat (0x30 + of_nat k :: 16 word) = 48 + k"
  by (simp add: unat_word_ariths unat_of_nat)

lemma digits_val_snoc: "digits_val (ds @ [d]) = 10 * digits_val ds + (unat d - 0x30)"
  by (simp add: digits_val_def)

lemma digits_val_dec: "digits_val (dec n) = n"
proof (induction n rule: dec.induct)
  case (1 n)
  show ?case
  proof (cases "n < 10")
    case True
    then show ?thesis
      by (simp add: dec.simps [of n] digits_val_def digit_unat)
  next
    case False
    have "digits_val (dec n) = 10 * digits_val (dec (n div 10)) + (unat (0x30 + of_nat (n mod 10) :: 16 word) - 0x30)"
      using False by (simp add: dec.simps [of n] digits_val_snoc)
    also have "\<dots> = 10 * (n div 10) + n mod 10"
      using False "1.IH" by (simp add: digit_unat)
    finally show ?thesis by simp
  qed
qed

lemma dec_inject:
  assumes "dec m = dec n"
  shows "m = n"
proof -
  have "digits_val (dec m) = digits_val (dec n)"
    using assms by (rule arg_cong)
  then show ?thesis by (simp only: digits_val_dec)
qed

lemma digit_not_underscore: "k < 10 \<Longrightarrow> (0x30 + of_nat k :: 16 word) \<noteq> 0x5F"
proof
  assume "k < 10" and "(0x30 + of_nat k :: 16 word) = 0x5F"
  then have "48 + k = unat (0x5F :: 16 word)" using digit_unat [of k] by simp
  then show False using \<open>k < 10\<close> by simp
qed

lemma dec_no_underscore: "0x5F \<notin> set (dec n)"
proof (induction n rule: dec.induct)
  case (1 n)
  show ?case
  proof (cases "n < 10")
    case True
    then show ?thesis
      using digit_not_underscore [of n] by (auto simp: dec.simps [of n])
  next
    case False
    then show ?thesis
      using "1.IH" digit_not_underscore [of "n mod 10"] by (auto simp: dec.simps [of n])
  qed
qed

lemma split_at_mark:
  "u \<notin> set a \<Longrightarrow> u \<notin> set b \<Longrightarrow> a @ u # r = b @ u # t \<Longrightarrow> a = b \<and> r = t"
proof (induction a arbitrary: b)
  case Nil
  then show ?case by (cases b) auto
next
  case (Cons x a)
  then show ?case by (cases b) auto
qed

lemma new_id_inject:
  "(new_id kind env' = new_id kind env) = (now env' = now env \<and> random36 env' = random36 env)"
proof
  assume "new_id kind env' = new_id kind env"
  then have "dec (now env') @ 0x5F # random36 env' = dec (now env) @ 0x5F # random36 env"
    by (simp add: new_id_def str_def)
  then have "dec (now env') = dec (now env) \<and> random36 env' = random36 env"
    using split_at_mark [OF dec_no_underscore dec_no_underscore] by blast
  then show "now env' = now env \<and> random36 env' = random36 env"
    using dec_inject by blast
next
  assume "now env' = now env \<and> random36 env' = random36 env"
  then show "new_id kind env' = new_id kind env"
    by (simp add: new_id_def)
qed

lemma json_log_finite:
  "finite_number (latitude r) \<Longrightarrow> finite_number (longitude r) \<Longrightarrow> json_log r = r"
proof -
  assume a: "finite_number (latitude r)" and b: "finite_number (longitude r)"
  have "json_number (latitude r) = latitude r"
    using a by (cases "latitude r" rule: json_number.cases) simp_all
  moreover have "json_number (longitude r) = longitude r"
    using b by (cases "longitude r" rule: json_number.cases) simp_all
  ultimately show ?thesis by (simp add: json_log_def)
qed

lemma collector_id_json_log: "collector_id (json_log r) = collector_id r"
  by (simp add: json_log_def)

lemma filter_map_json_log:
  "filter (\<lambda>r. collector_id r = c) (map json_log rs) = map json_log (filter (\<lambda>r. collector_id r = c) rs)"
  by (induction rs) (simp_all add: collector_id_json_log)

text \<open>
  C5, as stated, fails. A store holds one log, made at clock reading 1 with the suffix
  \<open>a\<close>; at the same reading and suffix a log whose latitude is \<open>NaN\<close> is added. The
  write succeeds, the returned record carries the identifier the stored log already has,
  and \<open>getCollectionLogs\<close> for its collector returns the stored log and the new one with
  latitude \<open>null\<close>: the returned record is not among the results.
\<close>

theorem logCollection_nan_counterexample:
  "logCollection False \<lparr>now = 1, isoNow = str ''t'', random36 = str ''a''\<rparr>
     \<lparr>log_id = None, collector_id = str ''C1'', user_id = str ''H2'', waste_type = Wet,
      timestamp = str ''t'', latitude = Some NaN, longitude = Some (Finite 0), notes' = None\<rparr>
     \<lparr>collection_logs = Some
        [\<lparr>log_id = Some (str ''log_1_a''), collector_id = str ''C1'', user_id = str ''H1'',
          waste_type = Dry, timestamp = str ''t'', latitude = Some (Finite 0),
          longitude = Some (Finite 0), notes' = None\<rparr>],
      dumping_reports = None, current_collector = None, scan_history = None\<rparr> =
   Inr (\<lparr>log_id = Some (str ''log_1_a''), collector_id = str ''C1'', user_id = str ''H2'',
         waste_type = Wet, timestamp = str ''t'', latitude = Some NaN,
         longitude = Some (Finite 0), notes' = None\<rparr>,
        \<lparr>collection_logs = Some
           [\<lparr>log_id = Some (str ''log_1_a''), collector_id = str ''C1'', user_id = str ''H1'',
             waste_type = Dry, timestamp = str ''t'', latitude = Some (Finite 0),
             longitude = Some (Finite 0), notes' = None\<rparr>,
            \<lparr>log_id = Some (str ''log_1_a''), collector_id = str ''C1'', user_id = str ''H2'',
             waste_type = Wet, timestamp = str ''t'', latitude = None,
             longitude = Some (Finite 0), notes' = None\<rparr>],
         dumping_reports = None, current_collector = None, scan_history = None\<rparr>) \<and>
   \<lparr>log_id = Some (str ''log_1_a''), collector_id = str ''C1'', user_id = str ''H2'',
     waste_type = Wet, timestamp = str ''t'', latitude = Some NaN,
     longitude = Some (Finite 0), notes' = None\<rparr> \<notin>
   set (getCollectionLogs (Some (str ''C1''))
     \<lparr>collection_logs = Some
        [\<lparr>log_id = Some (str ''log_1_a''), collector_id = str ''C1'', user_id = str ''H1'',
          waste_type = Dry, timestamp = str ''t'', latitude = Some (Finite 0),
          longitude = Some (Finite 0), notes' = None\<rparr>,
         \<lparr>log_id = Some (str ''log_1_a''), collector_id = str ''C1'', user_id = str ''H2'',
          waste_type = Wet, timestamp = str ''t'', latitude = None,
          longitude = Some (Finite 0), notes' = None\<rparr>],
      dumping_reports = None, current_collector = None, scan_history = None\<rparr>)"
  by (simp add: logCollection_def addCollectionLog_def setItem_collection_logs_def
      LocalStorage_getCollectionLogs_def getCollectionLogs_def getItem_def json_log_def
      new_id_def str_def dec.simps [of "Suc 0"] Let_def)

text \<open>
  C5, amended. From every store, for every input whose latitude and longitude are finite
  numbers, and when \<open>localStorage\<close> accepts the write: \<open>logCollection\<close> returns the input
  with its identifier set to \<open>log_<Date.now()>_<suffix>\<close>; the stored logs are those
  stored before, as their JSON text reads back, followed by that record;
  \<open>getCollectionLogs\<close> for the input's \<open>collector_id\<close> returns what it returned before,
  read back likewise, followed by that record, so the record is among its results. The
  identifier is the one of another clock reading and suffix exactly when both agree, so
  it is new unless both repeat.
\<close>

theorem logCollection_then_list:
  assumes "\<not> full"
    and "finite_number (latitude data)"
    and "finite_number (longitude data)"
  shows "\<exists>s'. logCollection full env data s = Inr (data\<lparr>log_id := Some (new_id ''log'' env)\<rparr>, s') \<and>
           LocalStorage_getCollectionLogs s' =
             map json_log (LocalStorage_getCollectionLogs s) @ [data\<lparr>log_id := Some (new_id ''log'' env)\<rparr>] \<and>
           getCollectionLogs (Some (collector_id data)) s' =
             map json_log (getCollectionLogs (Some (collector_id data)) s) @
               [data\<lparr>log_id := Some (new_id ''log'' env)\<rparr>] \<and>
           data\<lparr>log_id := Some (new_id ''log'' env)\<rparr> \<in> set (getCollectionLogs (Some (collector_id data)) s') \<and>
           (\<forall>env'. (new_id ''log'' env' = new_id ''log'' env) =
                    (now env' = now env \<and> random36 env' = random36 env))"
proof -
  let ?r = "data\<lparr>log_id := Some (new_id ''log'' env)\<rparr>"
  let ?s = "s\<lparr>collection_logs := Some (map json_log (LocalStorage_getCollectionLogs s @ [?r]))\<rparr>"
  have j: "json_log ?r = ?r"
    using assms(2,3) by (intro json_log_finite) simp_all
  have 1: "logCollection full env data s = Inr (?r, ?s)"
    using assms(1)
    by (simp add: logCollection_def addCollectionLog_def setItem_collection_logs_def Let_def)
  have 2: "LocalStorage_getCollectionLogs ?s = map json_log (LocalStorage_getCollectionLogs s) @ [?r]"
    using j by (simp add: LocalStorage_getCollectionLogs_def getItem_def)
  have 3: "getCollectionLogs (Some (collector_id data)) ?s =
             map json_log (getCollectionLogs (Some (collector_id data)) s) @ [?r]"
    unfolding getCollectionLogs_def Let_def 2
    by (simp add: filter_map_json_log)
  have 4: "?r \<in> set (getCollectionLogs (Some (collector_id data)) ?s)"
    unfolding 3 by simp
  show ?thesis
    using 1 2 3 4 new_id_inject [of "''log''" _ env] by blast
qed

theorem logCollection_then_list_witness:
  "\<not> False \<and> finite_number (Some (Finite 12)) \<and> finite_number (Some (Finite 77)) \<and>
   logCollection False \<lparr>now = 1, isoNow = str ''t'', random36 = str ''a''\<rparr>
     \<lparr>log_id = None, collector_id = str ''C1'', user_id = str ''H1'', waste_type = Dry,
      timestamp = str ''t'', latitude = Some (Finite 12), longitude = Some (Finite 77),
      notes' = None\<rparr>
     \<lparr>collection_logs = None, dumping_reports = None, current_collector = None,
      scan_history = None\<rparr> =
   Inr (\<lparr>log_id = Some (str ''log_1_a''), collector_id = str ''C1'', user_id = str ''H1'',
         waste_type = Dry, timestamp = str ''t'', latitude = Some (Finite 12),
         longitude = Some (Finite 77), notes' = None\<rparr>,
        \<lparr>collection_logs = Some
           [\<lparr>log_id = Some (str ''log_1_a''), collector_id = str ''C1'', user_id = str ''H1'',
             waste_type = Dry, timestamp = str ''t'', latitude = Some (Finite 12),
             longitude = Some (Finite 77), notes' = None\<rparr>],
         dumping_reports = None, current_collector = None, scan_history = None\<rparr>) \<and>
   (\<exists>s'. logCollection False \<lparr>now = 1, isoNow = str ''t'', random36 = str ''a''\<rparr>
            \<lparr>log_id = None, collector_id = str ''C1'', user_id = str ''H1'', waste_type = Dry,
             timestamp = str ''t'', latitude = Some (Finite 12), longitude = Some (Finite 77),
             notes' = None\<rparr>
            \<lparr>collection_logs = None, dumping_reports = None, current_collector = None,
             scan_history = None\<rparr> =
          Inr (\<lparr>log_id = Some (str ''log_1_a''), collector_id = str ''C1'', user_id = str ''H1'',
                waste_type = Dry, timestamp = str ''t'', latitude = Some (Finite 12),
                longitude = Some (Finite 77), notes' = None\<rparr>, s') \<and>
          getCollectionLogs (Some (str ''C1'')) s' =
            [\<lparr>log_id = Some (str ''log_1_a''), collector_id = str ''C1'', user_id = str ''H1'',
              waste_type = Dry, timestamp = str ''t'', latitude = Some (Finite 12),
              longitude = Some (Finite 77), notes' = None\<rparr>])"
proof -
  let ?env = "\<lparr>now = 1, isoNow = str ''t'', random36 = str ''a''\<rparr>"
  let ?data = "\<lparr>log_id = None, collector_id = str ''C1'', user_id = str ''H1'', waste_type = Dry,
      timestamp = str ''t'', latitude = Some (Finite 12), longitude = Some (Finite 77),
      notes' = None\<rparr>"
  let ?s = "\<lparr>collection_logs = None, dumping_reports = None, current_collector = None,
      scan_history = None\<rparr>"
  have 1: "\<not> False" by simp
  have 2: "finite_number (latitude ?data)" by simp
  have 3: "finite_number (longitude ?data)" by simp
  have e: "logCollection False ?env ?data ?s =
      Inr (?data\<lparr>log_id := Some (str ''log_1_a'')\<rparr>,
           ?s\<lparr>collection_logs := Some [?data\<lparr>log_id := Some (str ''log_1_a'')\<rparr>]\<rparr>)"
    by (simp add: logCollection_def addCollectionLog_def setItem_collection_logs_def
        LocalStorage_getCollectionLogs_def getItem_def json_log_def Let_def
        new_id_def str_def dec.simps [of "Suc 0"])
  obtain s' where
    "logCollection False ?env ?data ?s = Inr (?data\<lparr>log_id := Some (new_id ''log'' ?env)\<rparr>, s')"
    and "getCollectionLogs (Some (collector_id ?data)) s' =
           map json_log (getCollectionLogs (Some (collector_id ?data)) ?s) @
             [?data\<lparr>log_id := Some (new_id ''log'' ?env)\<rparr>]"
    using logCollection_then_list [OF 1 2 3, of ?env ?s] by blast
  then have "\<exists>s'. logCollection False ?env ?data ?s = Inr (?data\<lparr>log_id := Some (str ''log_1_a'')\<rparr>, s') \<and>
      getCollectionLogs (Some (str ''C1'')) s' = [?data\<lparr>log_id := Some (str ''log_1_a'')\<rparr>]"
    by (simp add: getCollectionLogs_def LocalStorage_getCollectionLogs_def getItem_def
        new_id_def str_def dec.simps [of "Suc 0"])
  then show ?thesis using e by simp
qed

text \<open>C7. From every store, after \<open>logout\<close> the current collector is none.\<close>

theorem logout_clears_collector: "getCurrentCollector (logout s) = None"
  by (simp add: getCurrentCollector_def logout_def clearCurrentCollector_def
      LocalStorage_getCurrentCollector_def)

text \<open>
  C9. \<open>logout\<close> and \<open>clearCurrentCollector\<close> leave the collection logs, the dumping
  reports and the scan history as they were, as stored and as the read operations
  return them.
\<close>

theorem logout_frame:
  "collection_logs (logout s) = collection_logs s \<and>
   dumping_reports (logout s) = dumping_reports s \<and>
   scan_history (logout s) = scan_history s \<and>
   collection_logs (clearCurrentCollector s) = collection_logs s \<and>
   dumping_reports (clearCurrentCollector s) = dumping_reports s \<and>
   scan_history (clearCurrentCollector s) = scan_history s \<and>
   getCollectionLogs c (logout s) = getCollectionLogs c s \<and>
   getDumpingReports c (logout s) = getDumpingReports c s \<and>
   getHistory (logout s) = getHistory s"
  by (simp add: logout_def clearCurrentCollector_def getCollectionLogs_def getDumpingReports_def
      getHistory_def LocalStorage_getCollectionLogs_def getIllegalDumpingReports_def)

section \<open>Properties of the scan history cache\<close>

lemma find_first:
  "find P xs = Some x \<Longrightarrow>
   xs[length (takeWhile (\<lambda>y. \<not> P y) xs) := g x] =
     takeWhile (\<lambda>y. \<not> P y) xs @ g x # tl (dropWhile (\<lambda>y. \<not> P y) xs)"
  by (induction xs) (simp_all split: if_splits)

lemma find_None_filter: "find P xs = None \<Longrightarrow> filter P xs = []"
  by (induction xs) (simp_all split: if_splits)

lemma filter_once_tail:
  "length (filter P xs) = 1 \<Longrightarrow> filter P (tl (dropWhile (\<lambda>y. \<not> P y) xs)) = []"
proof (induction xs)
  case Nil
  then show ?case by simp
next
  case (Cons x xs)
  show ?case
  proof (cases "P x")
    case True
    then have "filter P xs = []" using Cons.prems by simp
    then show ?thesis using True by simp
  next
    case False
    then show ?thesis using Cons by simp
  qed
qed

lemma filter_takeWhile_not: "filter P (takeWhile (\<lambda>y. \<not> P y) xs) = []"
  by (induction xs) simp_all

lemma find_Some_holds: "find P xs = Some x \<Longrightarrow> P x"
  by (induction xs) (simp_all split: if_splits)

lemma markAsSynced_getHistory:
  assumes "find (\<lambda>x. scan_id x = i) (getHistory s) = Some scan"
  shows "getHistory (markAsSynced i s) =
      takeWhile (\<lambda>y. scan_id y \<noteq> i) (getHistory s) @ scan\<lparr>synced := True\<rparr> #
        tl (dropWhile (\<lambda>y. scan_id y \<noteq> i) (getHistory s))"
proof -
  have "getHistory (markAsSynced i s) =
      (getHistory s)[length (takeWhile (\<lambda>y. scan_id y \<noteq> i) (getHistory s)) := scan\<lparr>synced := True\<rparr>]"
    using assms by (simp add: markAsSynced_def saveHistory_def getHistory_def Let_def getItem_def)
  also have "\<dots> = takeWhile (\<lambda>y. scan_id y \<noteq> i) (getHistory s) @ scan\<lparr>synced := True\<rparr> #
        tl (dropWhile (\<lambda>y. scan_id y \<noteq> i) (getHistory s))"
    using find_first [OF assms, of "\<lambda>x. x\<lparr>synced := True\<rparr>"] by simp
  finally show ?thesis .
qed

lemma markAsSynced_history:
  assumes "length (filter (\<lambda>x. scan_id x = i) (getHistory s)) = 1"
    and "x \<in> set (getHistory (markAsSynced i s))"
    and "scan_id x = i"
  shows "synced x"
proof (cases "find (\<lambda>x. scan_id x = i) (getHistory s)")
  case None
  then have "filter (\<lambda>x. scan_id x = i) (getHistory s) = []"
    by (rule find_None_filter)
  then show ?thesis using assms(1) by simp
next
  case (Some scan)
  let ?before = "takeWhile (\<lambda>y. scan_id y \<noteq> i) (getHistory s)"
  let ?after = "tl (dropWhile (\<lambda>y. scan_id y \<noteq> i) (getHistory s))"
  have "filter (\<lambda>x. scan_id x = i) ?after = []"
    using filter_once_tail [OF assms(1)] by simp
  then have t: "x \<notin> set ?after"
    using assms(3) unfolding filter_empty_conv by blast
  have w: "x \<notin> set ?before"
    using assms(3) set_takeWhileD [of x "\<lambda>y. scan_id y \<noteq> i" "getHistory s"] by blast
  have "set (getHistory (markAsSynced i s)) = set ?before \<union> {scan\<lparr>synced := True\<rparr>} \<union> set ?after"
    unfolding markAsSynced_getHistory [OF Some] by simp
  then have "x = scan\<lparr>synced := True\<rparr>"
    using assms(2) t w by blast
  then show ?thesis by simp
qed

lemma getHistory_clearSyncedScans: "getHistory (clearSyncedScans t) = getUnsyncedScans t"
  by (simp add: clearSyncedScans_def getUnsyncedScans_def saveHistory_def getHistory_def getItem_def)


text \<open>
  C6, as stated, fails: \<open>markAsSynced\<close> flips the first entry with the identifier only.
  Two scans added at one clock reading with one random suffix share their identifier;
  after \<open>markAsSynced\<close> with it the second one is still unsynced, and it is still in the
  history after \<open>clearSyncedScans\<close>.
\<close>

theorem markAsSynced_duplicate_id_counterexample:
  "snd (addScan \<lparr>now = 1, isoNow = str ''t'', random36 = str ''a''\<rparr> (str ''H2'') None
     (snd (addScan \<lparr>now = 1, isoNow = str ''t'', random36 = str ''a''\<rparr> (str ''H1'') None
        \<lparr>collection_logs = None, dumping_reports = None, current_collector = None,
         scan_history = None\<rparr>))) =
     \<lparr>collection_logs = None, dumping_reports = None, current_collector = None,
      scan_history = Some
        [\<lparr>scan_id = str ''scan_1_a'', scan_userId = str ''H1'', scan_timestamp = str ''t'',
          location = None, synced = False\<rparr>,
         \<lparr>scan_id = str ''scan_1_a'', scan_userId = str ''H2'', scan_timestamp = str ''t'',
          location = None, synced = False\<rparr>]\<rparr> \<and>
   getUnsyncedScans (markAsSynced (str ''scan_1_a'')
     \<lparr>collection_logs = None, dumping_reports = None, current_collector = None,
      scan_history = Some
        [\<lparr>scan_id = str ''scan_1_a'', scan_userId = str ''H1'', scan_timestamp = str ''t'',
          location = None, synced = False\<rparr>,
         \<lparr>scan_id = str ''scan_1_a'', scan_userId = str ''H2'', scan_timestamp = str ''t'',
          location = None, synced = False\<rparr>]\<rparr>) =
     [\<lparr>scan_id = str ''scan_1_a'', scan_userId = str ''H2'', scan_timestamp = str ''t'',
       location = None, synced = False\<rparr>] \<and>
   getHistory (clearSyncedScans (markAsSynced (str ''scan_1_a'')
     \<lparr>collection_logs = None, dumping_reports = None, current_collector = None,
      scan_history = Some
        [\<lparr>scan_id = str ''scan_1_a'', scan_userId = str ''H1'', scan_timestamp = str ''t'',
          location = None, synced = False\<rparr>,
         \<lparr>scan_id = str ''scan_1_a'', scan_userId = str ''H2'', scan_timestamp = str ''t'',
          location = None, synced = False\<rparr>]\<rparr>)) =
     [\<lparr>scan_id = str ''scan_1_a'', scan_userId = str ''H2'', scan_timestamp = str ''t'',
       location = None, synced = False\<rparr>]"
  by (simp add: addScan_def getHistory_def saveHistory_def getItem_def new_id_def str_def
      dec.simps [of "Suc 0"] markAsSynced_def getUnsyncedScans_def clearSyncedScans_def Let_def)

text \<open>
  C6, amended. For every store whose scan history holds an entry \<open>e\<close> and no other entry
  with the identifier of \<open>e\<close>: after \<open>markAsSynced\<close> with that identifier, \<open>e\<close> is not
  among the unsynced scans, nor is any entry with its identifier; and after
  \<open>clearSyncedScans\<close> the same holds of the history.
\<close>

theorem markAsSynced_then_clear:
  assumes "e \<in> set (getHistory s)"
    and "length (filter (\<lambda>x. scan_id x = scan_id e) (getHistory s)) = 1"
  shows "e \<notin> set (getUnsyncedScans (markAsSynced (scan_id e) s)) \<and>
         e \<notin> set (getHistory (clearSyncedScans (markAsSynced (scan_id e) s))) \<and>
         (\<forall>x \<in> set (getUnsyncedScans (markAsSynced (scan_id e) s)). scan_id x \<noteq> scan_id e) \<and>
         (\<forall>x \<in> set (getHistory (clearSyncedScans (markAsSynced (scan_id e) s))).
            scan_id x \<noteq> scan_id e)"
proof -
  have u: "scan_id x \<noteq> scan_id e"
    if "x \<in> set (getUnsyncedScans (markAsSynced (scan_id e) s))" for x
  proof
    assume "scan_id x = scan_id e"
    moreover have "x \<in> set (getHistory (markAsSynced (scan_id e) s))" and "\<not> synced x"
      using that by (simp_all add: getUnsyncedScans_def)
    ultimately show False using markAsSynced_history [OF assms(2)] by blast
  qed
  then have "e \<notin> set (getUnsyncedScans (markAsSynced (scan_id e) s))" by blast
  then show ?thesis using u by (simp add: getHistory_clearSyncedScans)
qed

theorem markAsSynced_then_clear_witness:
  "getUnsyncedScans (markAsSynced (str ''scan_1_a'')
     \<lparr>collection_logs = None, dumping_reports = None, current_collector = None,
      scan_history = Some
        [\<lparr>scan_id = str ''scan_1_a'', scan_userId = str ''H1'', scan_timestamp = str ''t'',
          location = None, synced = False\<rparr>,
         \<lparr>scan_id = str ''scan_2_b'', scan_userId = str ''H2'', scan_timestamp = str ''u'',
          location = None, synced = False\<rparr>]\<rparr>) =
     [\<lparr>scan_id = str ''scan_2_b'', scan_userId = str ''H2'', scan_timestamp = str ''u'',
       location = None, synced = False\<rparr>] \<and>
   \<lparr>scan_id = str ''scan_1_a'', scan_userId = str ''H1'', scan_timestamp = str ''t'',
     location = None, synced = False\<rparr> \<notin>
     set (getHistory (clearSyncedScans (markAsSynced (str ''scan_1_a'')
       \<lparr>collection_logs = None, dumping_reports = None, current_collector = None,
        scan_history = Some
          [\<lparr>scan_id = str ''scan_1_a'', scan_userId = str ''H1'', scan_timestamp = str ''t'',
            location = None, synced = False\<rparr>,
           \<lparr>scan_id = str ''scan_2_b'', scan_userId = str ''H2'', scan_timestamp = str ''u'',
            location = None, synced = False\<rparr>]\<rparr>)))"
proof -
  let ?e = "\<lparr>scan_id = str ''scan_1_a'', scan_userId = str ''H1'', scan_timestamp = str ''t'',
     location = None, synced = False\<rparr>"
  let ?s = "\<lparr>collection_logs = None, dumping_reports = None, current_collector = None,
      scan_history = Some
        [?e,
         \<lparr>scan_id = str ''scan_2_b'', scan_userId = str ''H2'', scan_timestamp = str ''u'',
          location = None, synced = False\<rparr>]\<rparr>"
  have 1: "?e \<in> set (getHistory ?s)"
    by (simp add: getHistory_def getItem_def)
  have 2: "length (filter (\<lambda>x. scan_id x = scan_id ?e) (getHistory ?s)) = 1"
    by (simp add: getHistory_def getItem_def str_def)
  have 3: "getUnsyncedScans (markAsSynced (str ''scan_1_a'') ?s) =
     [\<lparr>scan_id = str ''scan_2_b'', scan_userId = str ''H2'', scan_timestamp = str ''u'',
       location = None, synced = False\<rparr>]"
    by (simp add: getHistory_def saveHistory_def getItem_def str_def markAsSynced_def
        getUnsyncedScans_def)
  show ?thesis
    using 3 markAsSynced_then_clear [OF 1 2] by simp
qed

section \<open>Properties of the distance helper\<close>

lemma exact2_nan_right [simp]: "exact2 f x NotANumber = NotANumber"
  by (cases x) simp_all

lemma exact_div_nan_right [simp]: "exact_div x NotANumber = NotANumber"
  by (cases x) simp_all

lemma exact_eq_refl: "exact_eq x x = (x \<noteq> NotANumber)"
  by (cases x) simp_all

lemma exact_nan_laws: "nan_laws exact_ops"
  by (simp add: nan_laws_def exact_ops_def exact_eq_refl)

lemma exact_neg_neg: "exact1 uminus (exact1 uminus x) = x"
  by (cases x) simp_all

lemma exact_mul_neg: "exact2 (*) (exact1 uminus x) y = exact1 uminus (exact2 (*) x y)"
  by (cases x; cases y) simp_all

lemma exact_div_neg: "exact_div (exact1 uminus x) y = exact1 uminus (exact_div x y)"
  by (cases x; cases y) simp_all

lemma exact_sin_neg: "exact1 sin (exact1 uminus x) = exact1 uminus (exact1 sin x)"
  by (cases x) simp_all

lemma exact_sign_laws: "sign_laws exact_ops"
proof -
  have "\<forall>x. n_neg exact_ops (n_neg exact_ops x) = x"
    by (simp add: exact_ops_def exact_neg_neg)
  moreover have "n_mul exact_ops x y = n_mul exact_ops y x" for x y
    by (cases x; cases y) (simp_all add: exact_ops_def)
  moreover have "\<forall>x y. n_mul exact_ops (n_neg exact_ops x) y = n_neg exact_ops (n_mul exact_ops x y)"
    by (simp add: exact_ops_def exact_mul_neg)
  moreover have "\<forall>x y. n_div exact_ops (n_neg exact_ops x) y = n_neg exact_ops (n_div exact_ops x y)"
    by (simp add: exact_ops_def exact_div_neg)
  moreover have "n_sub exact_ops y x = n_neg exact_ops (n_sub exact_ops x y)" for x y
    by (cases x; cases y) (simp_all add: exact_ops_def)
  moreover have "\<forall>x. Math_sin exact_ops (n_neg exact_ops x) = n_neg exact_ops (Math_sin exact_ops x)"
    by (simp add: exact_ops_def exact_sin_neg)
  ultimately show ?thesis
    unfolding sign_laws_def by blast
qed

lemma sign_lawsD:
  assumes "sign_laws N"
  shows "n_neg N (n_neg N x) = x"
    and "n_mul N x y = n_mul N y x"
    and "n_mul N (n_neg N x) y = n_neg N (n_mul N x y)"
    and "n_div N (n_neg N x) y = n_neg N (n_div N x y)"
    and "n_sub N y x = n_neg N (n_sub N x y) \<or> n_sub N y x = n_sub N x y"
    and "Math_sin N (n_neg N x) = n_neg N (Math_sin N x)"
  using assms unfolding sign_laws_def by blast+

lemma exact_zero_laws: "zero_laws exact_ops"
  by (simp add: zero_laws_def exact_ops_def atan2_def)

lemma exact_number_laws: "number_laws exact_ops"
  by (simp add: number_laws_def exact_nan_laws exact_sign_laws exact_zero_laws)

lemma toRadian_nan: "nan_laws N \<Longrightarrow> toRadian N (n_nan N) = n_nan N"
  by (simp add: nan_laws_def toRadian_def)

lemma calculateDistance_nan:
  assumes "nan_laws N"
    and "lat1 = n_nan N \<or> lng1 = n_nan N \<or> lat2 = n_nan N \<or> lng2 = n_nan N"
  shows "calculateDistance N lat1 lng1 lat2 lng2 = n_nan N"
proof -
  have sub: "n_sub N (n_nan N) x = n_nan N" "n_sub N x (n_nan N) = n_nan N" for x
    using assms(1) by (simp_all add: nan_laws_def)
  have mul: "n_mul N (n_nan N) x = n_nan N" "n_mul N x (n_nan N) = n_nan N" for x
    using assms(1) by (simp_all add: nan_laws_def)
  have add: "n_add N (n_nan N) x = n_nan N" "n_add N x (n_nan N) = n_nan N" for x
    using assms(1) by (simp_all add: nan_laws_def)
  have dv: "n_div N (n_nan N) x = n_nan N" for x
    using assms(1) by (simp add: nan_laws_def)
  have fn: "Math_sin N (n_nan N) = n_nan N" "Math_sqrt N (n_nan N) = n_nan N"
    "Math_atan2 N (n_nan N) x = n_nan N" for x
    using assms(1) by (simp_all add: nan_laws_def)
  have rad: "toRadian N (n_nan N) = n_nan N"
    using assms(1) by (rule toRadian_nan)
  have lat: "calculateDistance N lat1 lng1 lat2 lng2 = n_nan N"
    if "n_sub N lat2 lat1 = n_nan N"
    using that by (simp add: calculateDistance_def Let_def rad dv fn mul add)
  have lng: "calculateDistance N lat1 lng1 lat2 lng2 = n_nan N"
    if "n_sub N lng2 lng1 = n_nan N"
    using that by (simp add: calculateDistance_def Let_def rad dv fn mul add)
  show ?thesis
    using assms(2) lat lng sub by blast
qed

lemma mul_neg_neg:
  assumes "sign_laws N"
  shows "n_mul N (n_mul N m (n_neg N x)) (n_neg N x) = n_mul N (n_mul N m x) x"
proof -
  have c: "n_mul N u v = n_mul N v u" for u v
    by (rule sign_lawsD(2) [OF assms])
  have l: "n_mul N (n_neg N u) v = n_neg N (n_mul N u v)" for u v
    by (rule sign_lawsD(3) [OF assms])
  have nn: "n_neg N (n_neg N u) = u" for u
    by (rule sign_lawsD(1) [OF assms])
  have r: "n_mul N u (n_neg N v) = n_neg N (n_mul N u v)" for u v
  proof -
    have "n_mul N u (n_neg N v) = n_mul N (n_neg N v) u" by (rule c)
    also have "\<dots> = n_neg N (n_mul N v u)" by (rule l)
    also have "\<dots> = n_neg N (n_mul N u v)" by (simp only: c [of v u])
    finally show ?thesis .
  qed
  have "n_mul N (n_mul N m (n_neg N x)) (n_neg N x) = n_mul N (n_neg N (n_mul N m x)) (n_neg N x)"
    by (simp only: r)
  also have "\<dots> = n_neg N (n_mul N (n_mul N m x) (n_neg N x))" by (rule l)
  also have "\<dots> = n_neg N (n_neg N (n_mul N (n_mul N m x) x))" by (simp only: r)
  also have "\<dots> = n_mul N (n_mul N m x) x" by (rule nn)
  finally show ?thesis .
qed

lemma square_neg:
  assumes "sign_laws N"
  shows "n_mul N (n_neg N x) (n_neg N x) = n_mul N x x"
proof -
  have l: "n_mul N (n_neg N u) v = n_neg N (n_mul N u v)" for u v
    by (rule sign_lawsD(3) [OF assms])
  have c: "n_mul N u v = n_mul N v u" for u v
    by (rule sign_lawsD(2) [OF assms])
  have nn: "n_neg N (n_neg N u) = u" for u
    by (rule sign_lawsD(1) [OF assms])
  have "n_mul N (n_neg N x) (n_neg N x) = n_neg N (n_mul N x (n_neg N x))" by (rule l)
  also have "\<dots> = n_neg N (n_mul N (n_neg N x) x)" by (simp only: c [of x "n_neg N x"])
  also have "\<dots> = n_neg N (n_neg N (n_mul N x x))" by (simp only: l)
  also have "\<dots> = n_mul N x x" by (rule nn)
  finally show ?thesis .
qed

lemma half_sine_neg:
  assumes "sign_laws N"
  shows "half_sine N (n_neg N d) = n_neg N (half_sine N d)"
  by (simp only: half_sine_def toRadian_def sign_lawsD(3) [OF assms] sign_lawsD(4) [OF assms]
      sign_lawsD(6) [OF assms])

lemma half_sine_swap:
  assumes "sign_laws N"
  shows "half_sine N (n_sub N y x) = n_neg N (half_sine N (n_sub N x y)) \<or>
         half_sine N (n_sub N y x) = half_sine N (n_sub N x y)"
proof -
  have "n_sub N y x = n_neg N (n_sub N x y) \<or> n_sub N y x = n_sub N x y"
    by (rule sign_lawsD(5) [OF assms])
  then show ?thesis
  proof
    assume "n_sub N y x = n_neg N (n_sub N x y)"
    then show ?thesis by (simp only: half_sine_neg [OF assms] simp_thms)
  next
    assume "n_sub N y x = n_sub N x y"
    then show ?thesis by (simp only: simp_thms)
  qed
qed

lemma calculateDistance_swap:
  assumes "sign_laws N"
  shows "calculateDistance N lat1 lng1 lat2 lng2 = calculateDistance N lat2 lng2 lat1 lng1"
proof -
  let ?c = "n_mul N (Math_cos N (toRadian N lat1)) (Math_cos N (toRadian N lat2))"
  have c: "n_mul N (Math_cos N (toRadian N lat2)) (Math_cos N (toRadian N lat1)) = ?c"
    by (rule sign_lawsD(2) [OF assms])
  have lat: "n_mul N (half_sine N (n_sub N lat1 lat2)) (half_sine N (n_sub N lat1 lat2)) =
             n_mul N (half_sine N (n_sub N lat2 lat1)) (half_sine N (n_sub N lat2 lat1))"
    using half_sine_swap [OF assms, of lat2 lat1]
    by (auto simp only: square_neg [OF assms])
  have lng: "n_mul N (n_mul N ?c (half_sine N (n_sub N lng1 lng2))) (half_sine N (n_sub N lng1 lng2)) =
             n_mul N (n_mul N ?c (half_sine N (n_sub N lng2 lng1))) (half_sine N (n_sub N lng2 lng1))"
    using half_sine_swap [OF assms, of lng2 lng1]
    by (auto simp only: mul_neg_neg [OF assms])
  have "calculateDistance N lat2 lng2 lat1 lng1 = calculateDistance N lat1 lng1 lat2 lng2"
    unfolding calculateDistance_def Let_def half_sine_def [symmetric]
    by (simp only: c lat lng)
  then show ?thesis by (rule sym)
qed

lemma calculateDistance_zero:
  assumes "zero_laws N"
  shows "calculateDistance N (n_lit N 0) (n_lit N 0) (n_lit N 0) (n_lit N 0) = n_lit N 0"
proof -
  have m: "n_mul N (n_lit N k) (n_lit N 0) = n_lit N 0" if "0 \<le> k" for k
    using assms that by (simp add: zero_laws_def)
  have z: "toRadian N (n_lit N 0) = n_lit N 0"
    using assms by (simp add: zero_laws_def toRadian_def)
  show ?thesis
    using assms m [of 0] m [of 1] m [of 2] m [of 6371]
    by (simp add: calculateDistance_def Let_def z zero_laws_def)
qed

text \<open>
  C8, as stated, fails: with a \<open>NaN\<close> latitude the distance is \<open>NaN\<close> in either order of
  the two points, and \<open>NaN\<close> is not equal to \<open>NaN\<close>.
\<close>

theorem calculateDistance_nan_counterexample:
  "number_laws exact_ops \<and>
   calculateDistance exact_ops NotANumber (Exact 0) (Exact 0) (Exact 0) = NotANumber \<and>
   calculateDistance exact_ops (Exact 0) (Exact 0) NotANumber (Exact 0) = NotANumber \<and>
   \<not> n_eq exact_ops (calculateDistance exact_ops NotANumber (Exact 0) (Exact 0) (Exact 0))
                     (calculateDistance exact_ops (Exact 0) (Exact 0) NotANumber (Exact 0))"
  using exact_number_laws
  by (simp add: calculateDistance_def toRadian_def Let_def exact_ops_def)

text \<open>
  C8, amended. On an arithmetic with the properties above, \<open>calculateDistance\<close> returns
  the same value for the two orders of the points, for all arguments; the two results
  are equal under \<open>===\<close> exactly when that value is not \<open>NaN\<close>; it is \<open>NaN\<close> whenever an
  argument is; and \<open>calculateDistance(0, 0, 0, 0)\<close> is \<open>0\<close>.
\<close>

theorem calculateDistance_symmetric:
  assumes "number_laws N"
  shows "calculateDistance N lat1 lng1 lat2 lng2 = calculateDistance N lat2 lng2 lat1 lng1 \<and>
         n_eq N (calculateDistance N lat1 lng1 lat2 lng2) (calculateDistance N lat2 lng2 lat1 lng1) =
           (calculateDistance N lat1 lng1 lat2 lng2 \<noteq> n_nan N) \<and>
         (lat1 = n_nan N \<or> lng1 = n_nan N \<or> lat2 = n_nan N \<or> lng2 = n_nan N \<longrightarrow>
            calculateDistance N lat1 lng1 lat2 lng2 = n_nan N) \<and>
         calculateDistance N (n_lit N 0) (n_lit N 0) (n_lit N 0) (n_lit N 0) = n_lit N 0 \<and>
         n_eq N (calculateDistance N (n_lit N 0) (n_lit N 0) (n_lit N 0) (n_lit N 0)) (n_lit N 0)"
proof -
  have n: "nan_laws N" and s: "sign_laws N" and z: "zero_laws N"
    using assms by (simp_all add: number_laws_def)
  have e: "n_eq N x x = (x \<noteq> n_nan N)" for x
    using n by (simp add: nan_laws_def)
  have l: "n_lit N 0 \<noteq> n_nan N"
    using n by (simp add: nan_laws_def)
  show ?thesis
    using calculateDistance_swap [OF s, of lat1 lng1 lat2 lng2]
      calculateDistance_nan [OF n, of lat1 lng1 lat2 lng2]
      calculateDistance_zero [OF z] e l
    by simp
qed

theorem calculateDistance_symmetric_witness:
  "number_laws exact_ops \<and>
   calculateDistance exact_ops (Exact 8) (Exact 1) (Exact (- 8)) (Exact (- 179)) =
     calculateDistance exact_ops (Exact (- 8)) (Exact (- 179)) (Exact 8) (Exact 1) \<and>
   calculateDistance exact_ops (Exact 0) (Exact 0) (Exact 0) (Exact 0) = Exact 0"
  using exact_number_laws
    calculateDistance_symmetric [OF exact_number_laws, of "Exact 8" "Exact 1" "Exact (- 8)" "Exact (- 179)"]
  by (simp add: exact_ops_def)

end
